theory Spec2Isabelle
  imports Main "HOL-Library.AList"
begin

section \<open>Weather by CEP: the Edge service (service-a) and the Orchestration service (service-b)\<close>

text \<open>
  A Go string is a sequence of bytes; it is modelled as \<^typ>\<open>string\<close>, whose characters are
  bytes. \<open>byte c\<close> is the numeric value of a byte.
\<close>

definition byte :: "char \<Rightarrow> nat" where
  "byte c = of_char c"

definition isDigit :: "char \<Rightarrow> bool" where
  "isDigit c = (48 \<le> byte c \<and> byte c \<le> 57)"

subsection \<open>The postal-code validator\<close>

text \<open>
  Both services hold the same function (service-a/main.go lines 88-91, service-b/main.go
  lines 106-109):
  \<^verbatim>\<open>
  func validateCEP(cep string) bool {
      matched, _ := regexp.MatchString(`^\d{8}$`, cep)
      return matched
  }
  \<close>
  The pattern is kept as data: the syntax tree that Go's \<open>regexp/syntax\<close> builds for it, with
  the operators it needs. Without the flag \<open>m\<close>, \<open>^\<close> is the beginning of the text and \<open>$\<close> is
  its end (not the position before a final newline); \<open>\d\<close> is the class of the ASCII digits;
  \<open>{8}\<close> repeats exactly eight times. A class of ASCII ranges matches exactly the one-byte
  runes in the ranges, so positions are counted in bytes.

  \<open>ends re s i\<close> lists the positions where a match of \<open>re\<close> that starts at position \<open>i\<close>
  of \<open>s\<close> can end. \<open>MatchString\<close> searches for a match starting anywhere, as Go's unanchored
  search does.
\<close>

datatype Regexp =
    OpBeginText
  | OpEndText
  | OpCharClass "(nat \<times> nat) list"
  | OpConcat Regexp Regexp
  | OpRepeat nat Regexp

definition inClass :: "(nat \<times> nat) list \<Rightarrow> char \<Rightarrow> bool" where
  "inClass rs c = list_ex (\<lambda>(lo, hi). lo \<le> byte c \<and> byte c \<le> hi) rs"

fun iter :: "nat \<Rightarrow> (nat \<Rightarrow> nat list) \<Rightarrow> nat \<Rightarrow> nat list" where
  "iter 0 f i = [i]"
| "iter (Suc n) f i = concat (map (iter n f) (f i))"

fun ends :: "Regexp \<Rightarrow> string \<Rightarrow> nat \<Rightarrow> nat list" where
  "ends OpBeginText s i = (if i = 0 then [i] else [])"
| "ends OpEndText s i = (if i = length s then [i] else [])"
| "ends (OpCharClass rs) s i = (if i < length s \<and> inClass rs (s ! i) then [Suc i] else [])"
| "ends (OpConcat r1 r2) s i = concat (map (ends r2 s) (ends r1 s i))"
| "ends (OpRepeat n r) s i = iter n (ends r s) i"

definition MatchString :: "Regexp \<Rightarrow> string \<Rightarrow> bool" where
  "MatchString re s = list_ex (\<lambda>i. ends re s i \<noteq> []) [0..<Suc (length s)]"

definition cepPattern :: Regexp where
  "cepPattern = OpConcat OpBeginText (OpConcat (OpRepeat 8 (OpCharClass [(48, 57)])) OpEndText)"

definition validateCEP :: "string \<Rightarrow> bool" where
  "validateCEP cep = MatchString cepPattern cep"

subsection \<open>JSON texts as \<open>encoding/json\<close> reads them\<close>

text \<open>
  The handlers read JSON with \<open>json.NewDecoder(r.Body).Decode\<close> and \<open>json.Unmarshal\<close>. Both
  first scan the bytes of one JSON value and then store it into the destination struct.
  \<open>parseValue\<close> is the scan: it follows the grammar of Go's scanner (white space is space,
  tab, carriage return and line feed; a comma is followed by another element; containers
  nest at most \<open>maxNestingDepth\<close> deep), reads a string literal as Go's \<open>unquote\<close> does,
  and returns the value with the bytes left after it. A number keeps its literal text.
\<close>

datatype json =
    JNull
  | JBool bool
  | JNumber string
  | JString string
  | JArray "json list"
  | JObject "(string \<times> json) list"

datatype error =
    SyntaxError
  | EOF
  | UnmarshalTypeError
  | URLError
  | TransportError string
  | ReadError
  | APIKeyNotSet
  | WeatherStatus int

definition isSpace :: "char \<Rightarrow> bool" where
  "isSpace c = (c = CHR '' '' \<or> c = CHR 0x09 \<or> c = CHR 0x0D \<or> c = CHR 0x0A)"

definition skipSpace :: "string \<Rightarrow> string" where
  "skipSpace s = dropWhile isSpace s"

definition hexval :: "char \<Rightarrow> nat option" where
  "hexval c =
     (if 48 \<le> byte c \<and> byte c \<le> 57 then Some (byte c - 48)
      else if 97 \<le> byte c \<and> byte c \<le> 102 then Some (byte c - 97 + 10)
      else if 65 \<le> byte c \<and> byte c \<le> 70 then Some (byte c - 65 + 10)
      else None)"

text \<open>\<open>getu4\<close> reads a \<open>\uXXXX\<close> escape at the head of its argument.\<close>

fun getu4 :: "string \<Rightarrow> nat option" where
  "getu4 (b # u # h1 # h2 # h3 # h4 # _) =
     (if b = CHR 0x5C \<and> u = CHR ''u'' then
        (case (hexval h1, hexval h2, hexval h3, hexval h4) of
           (Some x1, Some x2, Some x3, Some x4) \<Rightarrow> Some (x1 * 4096 + x2 * 256 + x3 * 16 + x4)
         | _ \<Rightarrow> None)
      else None)"
| "getu4 _ = None"

text \<open>
  UTF-8 as package \<open>unicode/utf8\<close> has it. \<open>utf8Width s\<close> is the number of bytes of the
  well-formed encoding at the head of \<open>s\<close>, and 0 where \<open>utf8.DecodeRune\<close> answers
  \<open>(RuneError, 1)\<close>. \<open>RuneError\<close> is the encoding of U+FFFD.
\<close>

definition cont :: "char \<Rightarrow> bool" where
  "cont c = (128 \<le> byte c \<and> byte c \<le> 191)"

fun utf8Width :: "string \<Rightarrow> nat" where
  "utf8Width [] = 0"
| "utf8Width (b0 # bs) =
     (let x = byte b0 in
      if x < 128 then 1
      else if 194 \<le> x \<and> x \<le> 223 then
        (case bs of b1 # _ \<Rightarrow> if cont b1 then 2 else 0 | _ \<Rightarrow> 0)
      else if 224 \<le> x \<and> x \<le> 239 then
        (case bs of
           b1 # b2 # _ \<Rightarrow>
             if (if x = 224 then 160 else 128) \<le> byte b1
                \<and> byte b1 \<le> (if x = 237 then 159 else 191) \<and> cont b2
             then 3 else 0
         | _ \<Rightarrow> 0)
      else if 240 \<le> x \<and> x \<le> 244 then
        (case bs of
           b1 # b2 # b3 # _ \<Rightarrow>
             if (if x = 240 then 144 else 128) \<le> byte b1
                \<and> byte b1 \<le> (if x = 244 then 143 else 191) \<and> cont b2 \<and> cont b3
             then 4 else 0
         | _ \<Rightarrow> 0)
      else 0)"

definition RuneError :: string where
  "RuneError = [CHR 0xEF, CHR 0xBF, CHR 0xBD]"

definition EncodeRune :: "nat \<Rightarrow> string" where
  "EncodeRune r =
     (if r < 128 then [char_of r]
      else if r < 2048 then [char_of (192 + r div 64), char_of (128 + r mod 64)]
      else if 55296 \<le> r \<and> r < 57344 then RuneError
      else if r < 65536 then
        [char_of (224 + r div 4096), char_of (128 + r div 64 mod 64), char_of (128 + r mod 64)]
      else if r < 1114112 then
        [char_of (240 + r div 262144), char_of (128 + r div 4096 mod 64),
         char_of (128 + r div 64 mod 64), char_of (128 + r mod 64)]
      else RuneError)"

text \<open>\<open>utf16.DecodeRune\<close>: the code point of a surrogate pair, if it is one.\<close>

definition DecodeRune16 :: "nat \<Rightarrow> nat option \<Rightarrow> nat option" where
  "DecodeRune16 r1 r2 =
     (case r2 of
        None \<Rightarrow> None
      | Some r2 \<Rightarrow>
          if 55296 \<le> r1 \<and> r1 < 56320 \<and> 56320 \<le> r2 \<and> r2 < 57344
          then Some ((r1 - 55296) * 1024 + (r2 - 56320) + 65536)
          else None)"

definition unescape :: "char \<Rightarrow> char option" where
  "unescape e =
     (if e = CHR 0x22 \<or> e = CHR 0x5C \<or> e = CHR ''/'' then Some e
      else if e = CHR ''b'' then Some (CHR 0x08)
      else if e = CHR ''f'' then Some (CHR 0x0C)
      else if e = CHR ''n'' then Some (CHR 0x0A)
      else if e = CHR ''r'' then Some (CHR 0x0D)
      else if e = CHR ''t'' then Some (CHR 0x09)
      else None)"

definition emit :: "string \<Rightarrow> (string \<times> string) option \<Rightarrow> (string \<times> string) option" where
  "emit out r = map_option (\<lambda>(s, rest). (out @ s, rest)) r"

text \<open>
  \<open>unquote\<close> reads a string literal after its opening quote: the decoded bytes and the
  input after the closing quote. A control byte or an unknown escape is a syntax error; a
  lone surrogate escape and a byte sequence that is not UTF-8 become U+FFFD.
\<close>

fun unquote :: "string \<Rightarrow> (string \<times> string) option" where
  "unquote [] = None"
| "unquote (c # cs) =
     (if c = CHR 0x22 then Some ([], cs)
      else if c = CHR 0x5C then
        (case cs of
           [] \<Rightarrow> None
         | e # es \<Rightarrow>
             if e = CHR ''u'' then
               (case getu4 (c # cs) of
                  None \<Rightarrow> None
                | Some rr \<Rightarrow>
                    if 55296 \<le> rr \<and> rr < 57344 then
                      (case DecodeRune16 rr (getu4 (drop 5 cs)) of
                         Some dec \<Rightarrow> emit (EncodeRune dec) (unquote (drop 11 cs))
                       | None \<Rightarrow> emit RuneError (unquote (drop 5 cs)))
                    else emit (EncodeRune rr) (unquote (drop 5 cs)))
             else
               (case unescape e of
                  None \<Rightarrow> None
                | Some b \<Rightarrow> emit [b] (unquote es)))
      else if byte c < 32 then None
      else if byte c < 128 then emit [c] (unquote cs)
      else
        (let n = utf8Width (c # cs) in
         if n = 0 then emit RuneError (unquote cs)
         else emit (take n (c # cs)) (unquote (drop (n - 1) cs))))"

text \<open>Numbers: \<open>-? (0 | [1-9][0-9]*) (. [0-9]+)? ([eE] [+-]? [0-9]+)?\<close>.\<close>

fun digits :: "string \<Rightarrow> string \<times> string" where
  "digits [] = ([], [])"
| "digits (c # cs) =
     (if isDigit c then (let (ds, rest) = digits cs in (c # ds, rest)) else ([], c # cs))"

definition scanInt :: "string \<Rightarrow> (string \<times> string) option" where
  "scanInt s =
     (case s of
        [] \<Rightarrow> None
      | c # cs \<Rightarrow>
          if c = CHR ''0'' then Some ([c], cs)
          else if isDigit c then (let (ds, rest) = digits cs in Some (c # ds, rest))
          else None)"

definition scanFrac :: "string \<Rightarrow> (string \<times> string) option" where
  "scanFrac s =
     (case s of
        [] \<Rightarrow> Some ([], s)
      | d # s1 \<Rightarrow>
          if d = CHR ''.'' then
            (let (ds, rest) = digits s1 in if ds = [] then None else Some (d # ds, rest))
          else Some ([], s))"

definition scanExp :: "string \<Rightarrow> (string \<times> string) option" where
  "scanExp s =
     (case s of
        [] \<Rightarrow> Some ([], s)
      | e # s1 \<Rightarrow>
          if e = CHR ''e'' \<or> e = CHR ''E'' then
            (let (sign, s2) =
                   (case s1 of
                      [] \<Rightarrow> ([], s1)
                    | c # s2 \<Rightarrow> if c = CHR ''+'' \<or> c = CHR ''-'' then ([c], s2) else ([], s1));
                 (ds, rest) = digits s2
             in if ds = [] then None else Some (e # sign @ ds, rest))
          else Some ([], s))"

definition scanNumber :: "string \<Rightarrow> (string \<times> string) option" where
  "scanNumber s =
     (let (neg, s0) =
            (case s of [] \<Rightarrow> ([], s) | c # cs \<Rightarrow> if c = CHR ''-'' then ([c], cs) else ([], s))
      in case scanInt s0 of
           None \<Rightarrow> None
         | Some (i, s1) \<Rightarrow>
             (case scanFrac s1 of
                None \<Rightarrow> None
              | Some (f, s2) \<Rightarrow>
                  (case scanExp s2 of
                     None \<Rightarrow> None
                   | Some (e, s3) \<Rightarrow> Some (neg @ i @ f @ e, s3))))"

definition scanLiteral :: "string \<Rightarrow> (json \<times> string) option" where
  "scanLiteral s =
     (if take 4 s = ''true'' then Some (JBool True, drop 4 s)
      else if take 5 s = ''false'' then Some (JBool False, drop 5 s)
      else if take 4 s = ''null'' then Some (JNull, drop 4 s)
      else None)"

definition maxNestingDepth :: nat where
  "maxNestingDepth = 10000"

text \<open>
  \<open>parseValue d s\<close> reads one value at the head of \<open>s\<close>, inside \<open>d\<close> open containers;
  \<open>parseElements\<close> reads the elements of an array up to its closing bracket and
  \<open>parseMembers\<close> the members of an object up to its closing brace. The comparisons of
  lengths make the recursion well-founded; they always hold, see \<open>parseElements_unguarded\<close>
  and \<open>parseMembers_unguarded\<close> below.
\<close>

function (sequential) parseValue :: "nat \<Rightarrow> string \<Rightarrow> (json \<times> string) option"
  and parseElements :: "nat \<Rightarrow> string \<Rightarrow> (json list \<times> string) option"
  and parseMembers :: "nat \<Rightarrow> string \<Rightarrow> ((string \<times> json) list \<times> string) option"
where
  "parseValue d s =
     (case skipSpace s of
        [] \<Rightarrow> None
      | c # cs \<Rightarrow>
          if c = CHR ''{'' then
            (if maxNestingDepth \<le> d then None
             else case skipSpace cs of
                    [] \<Rightarrow> None
                  | c1 # cs1 \<Rightarrow>
                      if c1 = CHR ''}'' then Some (JObject [], cs1)
                      else map_option (\<lambda>(ms, rest). (JObject ms, rest)) (parseMembers (Suc d) cs))
          else if c = CHR ''['' then
            (if maxNestingDepth \<le> d then None
             else case skipSpace cs of
                    [] \<Rightarrow> None
                  | c1 # cs1 \<Rightarrow>
                      if c1 = CHR '']'' then Some (JArray [], cs1)
                      else map_option (\<lambda>(vs, rest). (JArray vs, rest)) (parseElements (Suc d) cs))
          else if c = CHR 0x22 then map_option (\<lambda>(str, rest). (JString str, rest)) (unquote cs)
          else if c = CHR ''-'' \<or> isDigit c then
            map_option (\<lambda>(lit, rest). (JNumber lit, rest)) (scanNumber (c # cs))
          else scanLiteral (c # cs))"
| "parseElements d s =
     (case parseValue d s of
        None \<Rightarrow> None
      | Some (v, rest) \<Rightarrow>
          (case skipSpace rest of
             [] \<Rightarrow> None
           | c # cs \<Rightarrow>
               if c = CHR '']'' then Some ([v], cs)
               else if c = CHR '','' \<and> length cs < length s then
                 map_option (\<lambda>(vs, rest'). (v # vs, rest')) (parseElements d cs)
               else None))"
| "parseMembers d s =
     (case skipSpace s of
        [] \<Rightarrow> None
      | q # s1 \<Rightarrow>
          if q \<noteq> CHR 0x22 then None
          else
            (case unquote s1 of
               None \<Rightarrow> None
             | Some (k, s2) \<Rightarrow>
                 (case skipSpace s2 of
                    [] \<Rightarrow> None
                  | colon # s3 \<Rightarrow>
                      if colon \<noteq> CHR '':'' \<or> \<not> length s3 < length s then None
                      else
                        (case parseValue d s3 of
                           None \<Rightarrow> None
                         | Some (v, rest) \<Rightarrow>
                             (case skipSpace rest of
                                [] \<Rightarrow> None
                              | c # cs \<Rightarrow>
                                  if c = CHR ''}'' then Some ([(k, v)], cs)
                                  else if c = CHR '','' \<and> length cs < length s then
                                    map_option (\<lambda>(ms, rest'). ((k, v) # ms, rest'))
                                      (parseMembers d cs)
                                  else None)))))"
  by pat_completeness auto

termination
proof -
  have shorter: "length cs < length s" if "skipSpace s = c # cs" for s c cs
  proof -
    from that have "length (dropWhile isSpace s) = Suc (length cs)"
      by (simp add: skipSpace_def)
    moreover have "length (dropWhile isSpace s) \<le> length s"
      by (rule length_dropWhile_le)
    ultimately show ?thesis by simp
  qed
  show ?thesis
    by (relation "measure (\<lambda>x. case x of
            Inl (d, s) \<Rightarrow> 2 * length s
          | Inr (Inl (d, s)) \<Rightarrow> 2 * length s + 1
          | Inr (Inr (d, s)) \<Rightarrow> 2 * length s + 1)")
       (auto dest: shorter)
qed

subsection \<open>Storing JSON values into the structs\<close>

text \<open>
  The structs of both files, with their JSON field names:
  \<^verbatim>\<open>
  type CEPRequest struct { CEP string `json:"cep"` }
  type ErrorResponse struct { Message string `json:"message"` }
  type WeatherResponse struct {
      City string `json:"city"`; TempC float64 `json:"temp_C"`
      TempF float64 `json:"temp_F"`; TempK float64 `json:"temp_K"` }
  type ViaCEPResponse struct {
      CEP string `json:"cep"`; Logradouro string `json:"logradouro"`
      Complemento string `json:"complemento"`; Bairro string `json:"bairro"`
      Localidade string `json:"localidade"`; UF string `json:"uf"`; Erro string `json:"erro"` }
  type WeatherAPIResponse struct { Current struct { TempC float64 `json:"temp_c"` } `json:"current"` }
  \<close>
  Field \<open>CEP\<close> of \<open>ViaCEPResponse\<close> is \<open>ViaCEP_CEP\<close> here and \<open>Current.TempC\<close> is
  \<open>Current_TempC\<close>, since a field name belongs to one record.

  Values of type \<open>float64\<close> are not interpreted: they range over a type \<open>'f\<close>, and the
  operations on them that the program uses are the fields of \<open>'f float64\<close>.
\<close>

record CEPRequest =
  CEP :: string

record ErrorResponse =
  Message :: string

record 'f WeatherResponse =
  City :: string
  TempC :: 'f
  TempF :: 'f
  TempK :: 'f

record ViaCEPResponse =
  ViaCEP_CEP :: string
  Logradouro :: string
  Complemento :: string
  Bairro :: string
  Localidade :: string
  UF :: string
  Erro :: string

record 'f WeatherAPIResponse =
  Current_TempC :: 'f

record 'f float64 =
  const :: "string \<Rightarrow> 'f"  \<comment> \<open>the value of a constant of the program text\<close>
  mul :: "'f \<Rightarrow> 'f \<Rightarrow> 'f"
  add :: "'f \<Rightarrow> 'f \<Rightarrow> 'f"
  ParseFloat :: "string \<Rightarrow> 'f option"  \<comment> \<open>\<open>strconv.ParseFloat\<close> on a number literal; \<open>None\<close> is a range error\<close>
  appendFloat :: "'f \<Rightarrow> string option"  \<comment> \<open>the JSON text of a value; \<open>None\<close> for NaN and the infinities\<close>

text \<open>
  A key of a JSON object selects the field whose name equals it up to the case of ASCII
  letters (none of the field names above holds a letter with a case fold outside ASCII).
  A string is stored; \<open>null\<close> leaves the field as it is; any other value leaves the field
  as it is and saves an \<open>UnmarshalTypeError\<close>; decoding goes on, and the first saved error
  is the result. A key that selects no field is skipped.
\<close>

definition foldName :: "string \<Rightarrow> string" where
  "foldName s = map (\<lambda>c. if 97 \<le> byte c \<and> byte c \<le> 122 then char_of (byte c - 32) else c) s"

definition saveError :: "error option \<Rightarrow> error option \<Rightarrow> error option" where
  "saveError saved e = (case saved of None \<Rightarrow> e | Some _ \<Rightarrow> saved)"

fun storeString :: "json \<Rightarrow> string \<Rightarrow> string \<times> error option" where
  "storeString (JString s) old = (s, None)"
| "storeString JNull old = (old, None)"
| "storeString _ old = (old, Some UnmarshalTypeError)"

fun storeFloat :: "'f float64 \<Rightarrow> json \<Rightarrow> 'f \<Rightarrow> 'f \<times> error option" where
  "storeFloat fl (JNumber lit) old =
     (case ParseFloat fl lit of
        Some x \<Rightarrow> (x, None)
      | None \<Rightarrow> (old, Some UnmarshalTypeError))"
| "storeFloat fl JNull old = (old, None)"
| "storeFloat fl _ old = (old, Some UnmarshalTypeError)"

definition CEPRequest_member ::
  "string \<times> json \<Rightarrow> CEPRequest \<times> error option \<Rightarrow> CEPRequest \<times> error option" where
  "CEPRequest_member m st =
     (case (m, st) of
        ((k, v), (req, saved)) \<Rightarrow>
          if foldName k = ''CEP'' then
            (let (s, e) = storeString v (CEP req) in (req\<lparr>CEP := s\<rparr>, saveError saved e))
          else (req, saved))"

fun CEPRequest_value :: "json \<Rightarrow> CEPRequest \<Rightarrow> CEPRequest \<times> error option" where
  "CEPRequest_value (JObject ms) req = fold CEPRequest_member ms (req, None)"
| "CEPRequest_value JNull req = (req, None)"
| "CEPRequest_value _ req = (req, Some UnmarshalTypeError)"

definition ViaCEPResponse_member ::
  "string \<times> json \<Rightarrow> ViaCEPResponse \<times> error option \<Rightarrow> ViaCEPResponse \<times> error option" where
  "ViaCEPResponse_member m st =
     (case (m, st) of
        ((k, v), (r, saved)) \<Rightarrow>
          let n = foldName k in
          if n = ''CEP'' then
            (let (s, e) = storeString v (ViaCEP_CEP r) in (r\<lparr>ViaCEP_CEP := s\<rparr>, saveError saved e))
          else if n = ''LOGRADOURO'' then
            (let (s, e) = storeString v (Logradouro r) in (r\<lparr>Logradouro := s\<rparr>, saveError saved e))
          else if n = ''COMPLEMENTO'' then
            (let (s, e) = storeString v (Complemento r) in (r\<lparr>Complemento := s\<rparr>, saveError saved e))
          else if n = ''BAIRRO'' then
            (let (s, e) = storeString v (Bairro r) in (r\<lparr>Bairro := s\<rparr>, saveError saved e))
          else if n = ''LOCALIDADE'' then
            (let (s, e) = storeString v (Localidade r) in (r\<lparr>Localidade := s\<rparr>, saveError saved e))
          else if n = ''UF'' then
            (let (s, e) = storeString v (UF r) in (r\<lparr>UF := s\<rparr>, saveError saved e))
          else if n = ''ERRO'' then
            (let (s, e) = storeString v (Erro r) in (r\<lparr>Erro := s\<rparr>, saveError saved e))
          else (r, saved))"

fun ViaCEPResponse_value :: "json \<Rightarrow> ViaCEPResponse \<Rightarrow> ViaCEPResponse \<times> error option" where
  "ViaCEPResponse_value (JObject ms) r = fold ViaCEPResponse_member ms (r, None)"
| "ViaCEPResponse_value JNull r = (r, None)"
| "ViaCEPResponse_value _ r = (r, Some UnmarshalTypeError)"

definition Current_member ::
  "'f float64 \<Rightarrow> string \<times> json \<Rightarrow> 'f WeatherAPIResponse \<times> error option
     \<Rightarrow> 'f WeatherAPIResponse \<times> error option" where
  "Current_member fl m st =
     (case (m, st) of
        ((k, v), (r, saved)) \<Rightarrow>
          if foldName k = ''TEMP_C'' then
            (let (x, e) = storeFloat fl v (Current_TempC r)
             in (r\<lparr>Current_TempC := x\<rparr>, saveError saved e))
          else (r, saved))"

fun Current_value ::
  "'f float64 \<Rightarrow> json \<Rightarrow> 'f WeatherAPIResponse \<times> error option
     \<Rightarrow> 'f WeatherAPIResponse \<times> error option" where
  "Current_value fl (JObject ms) st = fold (Current_member fl) ms st"
| "Current_value fl JNull st = st"
| "Current_value fl _ st = (fst st, saveError (snd st) (Some UnmarshalTypeError))"

definition WeatherAPIResponse_member ::
  "'f float64 \<Rightarrow> string \<times> json \<Rightarrow> 'f WeatherAPIResponse \<times> error option
     \<Rightarrow> 'f WeatherAPIResponse \<times> error option" where
  "WeatherAPIResponse_member fl m st =
     (case m of (k, v) \<Rightarrow> if foldName k = ''CURRENT'' then Current_value fl v st else st)"

fun WeatherAPIResponse_value ::
  "'f float64 \<Rightarrow> json \<Rightarrow> 'f WeatherAPIResponse \<Rightarrow> 'f WeatherAPIResponse \<times> error option" where
  "WeatherAPIResponse_value fl (JObject ms) r = fold (WeatherAPIResponse_member fl) ms (r, None)"
| "WeatherAPIResponse_value fl JNull r = (r, None)"
| "WeatherAPIResponse_value fl _ r = (r, Some UnmarshalTypeError)"

text \<open>
  \<open>json.NewDecoder(r.Body).Decode(&req)\<close> reads the first JSON value of the body and leaves
  what follows it unread; a body with no value is \<open>io.EOF\<close>. \<open>json.Unmarshal(body, &v)\<close>
  wants the whole body to be one value between optional white space. The destination
  starts as the zero value of its type, as \<open>var req CEPRequest\<close> makes it. The callers only
  test the error, so the result is the error or the filled struct.
\<close>

definition result :: "'a \<times> error option \<Rightarrow> error + 'a" where
  "result p = (case p of (v, None) \<Rightarrow> Inr v | (v, Some e) \<Rightarrow> Inl e)"

definition Decode_CEPRequest :: "string \<Rightarrow> error + CEPRequest" where
  "Decode_CEPRequest body =
     (if skipSpace body = [] then Inl EOF
      else case parseValue 0 body of
             None \<Rightarrow> Inl SyntaxError
           | Some (v, rest) \<Rightarrow> result (CEPRequest_value v \<lparr>CEP = []\<rparr>))"

definition checkValid :: "string \<Rightarrow> json option" where
  "checkValid data =
     (case parseValue 0 data of
        None \<Rightarrow> None
      | Some (v, rest) \<Rightarrow> if skipSpace rest = [] then Some v else None)"

definition Unmarshal_ViaCEPResponse :: "string \<Rightarrow> error + ViaCEPResponse" where
  "Unmarshal_ViaCEPResponse data =
     (case checkValid data of
        None \<Rightarrow> Inl SyntaxError
      | Some v \<Rightarrow>
          result (ViaCEPResponse_value v
            \<lparr>ViaCEP_CEP = [], Logradouro = [], Complemento = [], Bairro = [], Localidade = [],
             UF = [], Erro = []\<rparr>))"

definition Unmarshal_WeatherAPIResponse :: "'f float64 \<Rightarrow> string \<Rightarrow> error + 'f WeatherAPIResponse" where
  "Unmarshal_WeatherAPIResponse fl data =
     (case checkValid data of
        None \<Rightarrow> Inl SyntaxError
      | Some v \<Rightarrow> result (WeatherAPIResponse_value fl v \<lparr>Current_TempC = const fl ''0''\<rparr>))"

subsection \<open>Writing JSON\<close>

text \<open>
  \<open>json.Marshal\<close> and \<open>Encoder.Encode\<close> write a string between quotes. A quote and a
  backslash get a backslash before them; backspace, form feed, line feed, carriage return
  and tab get their short escapes; the other control bytes and the characters \<open><\<close>, \<open>>\<close>
  and \<open>&\<close> become a \<open>u00XX\<close> escape; a byte that is not UTF-8 becomes the escape of
  U+FFFD; U+2028 and U+2029 become their escapes; every other character is copied.
  \<open>Encode\<close> writes a line feed after the value, and writes nothing when the value cannot be
  encoded.
\<close>

definition hexdigit :: "string \<Rightarrow> nat \<Rightarrow> char" where
  "hexdigit tab n = tab ! (n mod 16)"

definition htmlSafe :: "char \<Rightarrow> bool" where
  "htmlSafe c =
     (32 \<le> byte c \<and> byte c < 128 \<and> c \<noteq> CHR 0x22 \<and> c \<noteq> CHR 0x5C
      \<and> c \<noteq> CHR ''<'' \<and> c \<noteq> CHR ''>'' \<and> c \<noteq> CHR ''&'')"

definition escapeByte :: "char \<Rightarrow> string" where
  "escapeByte c =
     (if c = CHR 0x22 \<or> c = CHR 0x5C then [CHR 0x5C, c]
      else if c = CHR 0x08 then [CHR 0x5C, CHR ''b'']
      else if c = CHR 0x0C then [CHR 0x5C, CHR ''f'']
      else if c = CHR 0x0A then [CHR 0x5C, CHR ''n'']
      else if c = CHR 0x0D then [CHR 0x5C, CHR ''r'']
      else if c = CHR 0x09 then [CHR 0x5C, CHR ''t'']
      else [CHR 0x5C, CHR ''u'', CHR ''0'', CHR ''0'',
            hexdigit ''0123456789abcdef'' (byte c div 16), hexdigit ''0123456789abcdef'' (byte c)])"

fun appendString :: "string \<Rightarrow> string" where
  "appendString [] = []"
| "appendString (c # cs) =
     (if byte c < 128 then (if htmlSafe c then [c] else escapeByte c) @ appendString cs
      else
        (let n = utf8Width (c # cs) in
         if n = 0 then CHR 0x5C # ''ufffd'' @ appendString cs
         else if take 3 (c # cs) = [CHR 0xE2, CHR 0x80, CHR 0xA8] then
           CHR 0x5C # ''u2028'' @ appendString (drop 2 cs)
         else if take 3 (c # cs) = [CHR 0xE2, CHR 0x80, CHR 0xA9] then
           CHR 0x5C # ''u2029'' @ appendString (drop 2 cs)
         else take n (c # cs) @ appendString (drop (n - 1) cs)))"

definition quote :: "string \<Rightarrow> string" where
  "quote s = CHR 0x22 # appendString s @ [CHR 0x22]"

definition Marshal_CEPRequest :: "CEPRequest \<Rightarrow> string" where
  \<open>Marshal_CEPRequest req = ''{"cep":'' @ quote (CEP req) @ ''}''\<close>

definition Marshal_ErrorResponse :: "ErrorResponse \<Rightarrow> string" where
  \<open>Marshal_ErrorResponse e = ''{"message":'' @ quote (Message e) @ ''}''\<close>

definition Marshal_WeatherResponse :: "'f float64 \<Rightarrow> 'f WeatherResponse \<Rightarrow> string option" where
  \<open>Marshal_WeatherResponse fl r =
     (case (appendFloat fl (TempC r), appendFloat fl (TempF r), appendFloat fl (TempK r)) of
        (Some c, Some f, Some k) \<Rightarrow>
          Some (''{"city":'' @ quote (City r) @ '',"temp_C":'' @ c @ '',"temp_F":'' @ f
                @ '',"temp_K":'' @ k @ ''}'')
      | _ \<Rightarrow> None)\<close>

subsection \<open>HTTP: requests, responses and the world outside\<close>

text \<open>
  An \<open>http.ResponseWriter\<close> is the record of what the handler wrote: the status code of
  the first \<open>WriteHeader\<close> (\<open>Write\<close> sends status 200 first if none was sent), the header,
  and the bytes of the body. A request holds its method, URL, header and body; the body of
  an incoming request is the bytes the client sent. A \<open>Response\<close> is what \<open>client.Do\<close>
  returns: the status code and what reading the body delivers, bytes and possibly an error
  in place of the end of the stream.

  The world outside a handler is an \<open>env\<close>: the environment variables, whether
  \<open>http.NewRequestWithContext\<close> accepts a URL, and the outcome of \<open>client.Do\<close> for each
  request, where a failure of the transport (connection refused, timeout) is an error.
  Every function that can call \<open>client.Do\<close> returns, beside its result, the list of the
  requests it sent, in order. Tracing spans and the trace headers of outgoing requests are
  left out: they do not influence any result.
\<close>

record ResponseWriter =
  w_status :: "int option"
  w_header :: "(string \<times> string) list"
  w_body :: string

record Request =
  Method :: string
  URL :: string
  Header :: "(string \<times> string) list"
  Body :: string

record Response =
  StatusCode :: int
  RespBody :: string
  ReadErr :: "error option"

record env =
  Getenv :: "string \<Rightarrow> string"
  ParseURL :: "string \<Rightarrow> bool"
  Do :: "Request \<Rightarrow> error + Response"

definition NewResponseWriter :: ResponseWriter where
  "NewResponseWriter = \<lparr>w_status = None, w_header = [], w_body = []\<rparr>"

definition Header_Set :: "string \<Rightarrow> string \<Rightarrow> ResponseWriter \<Rightarrow> ResponseWriter" where
  "Header_Set k v w = w\<lparr>w_header := AList.update k v (w_header w)\<rparr>"

definition WriteHeader :: "int \<Rightarrow> ResponseWriter \<Rightarrow> ResponseWriter" where
  "WriteHeader code w = (case w_status w of None \<Rightarrow> w\<lparr>w_status := Some code\<rparr> | Some _ \<Rightarrow> w)"

definition Write :: "string \<Rightarrow> ResponseWriter \<Rightarrow> ResponseWriter" where
  "Write b w = (let w' = WriteHeader 200 w in w'\<lparr>w_body := w_body w' @ b\<rparr>)"

definition Encode_ErrorResponse :: "ErrorResponse \<Rightarrow> ResponseWriter \<Rightarrow> ResponseWriter" where
  "Encode_ErrorResponse e w = Write (Marshal_ErrorResponse e @ [CHR 0x0A]) w"

definition Encode_WeatherResponse ::
  "'f float64 \<Rightarrow> 'f WeatherResponse \<Rightarrow> ResponseWriter \<Rightarrow> ResponseWriter" where
  "Encode_WeatherResponse fl r w =
     (case Marshal_WeatherResponse fl r of
        None \<Rightarrow> w
      | Some b \<Rightarrow> Write (b @ [CHR 0x0A]) w)"

definition NewRequestWithContext :: "env \<Rightarrow> string \<Rightarrow> string \<Rightarrow> string \<Rightarrow> error + Request" where
  "NewRequestWithContext e method url body =
     (if ParseURL e url then Inr \<lparr>Method = method, URL = url, Header = [], Body = body\<rparr>
      else Inl URLError)"

definition ReadAll :: "Response \<Rightarrow> string \<times> error option" where
  "ReadAll resp = (RespBody resp, ReadErr resp)"

definition StatusMethodNotAllowed :: int where "StatusMethodNotAllowed = 405"
definition StatusUnprocessableEntity :: int where "StatusUnprocessableEntity = 422"
definition StatusInternalServerError :: int where "StatusInternalServerError = 500"
definition StatusServiceUnavailable :: int where "StatusServiceUnavailable = 503"
definition StatusNotFound :: int where "StatusNotFound = 404"
definition StatusOK :: int where "StatusOK = 200"

text \<open>
  Each error branch of both handlers is the same three lines:
  \<^verbatim>\<open>
  w.Header().Set("Content-Type", "application/json")
  w.WriteHeader(code)
  json.NewEncoder(w).Encode(ErrorResponse{Message: msg})
  \<close>
\<close>

definition respondError :: "int \<Rightarrow> string \<Rightarrow> ResponseWriter \<Rightarrow> ResponseWriter" where
  "respondError code msg w =
     Encode_ErrorResponse \<lparr>Message = msg\<rparr>
       (WriteHeader code (Header_Set ''Content-Type'' ''application/json'' w))"

subsection \<open>The Edge service: \<open>handleCEP\<close> of service-a/main.go\<close>

definition handleCEP :: "env \<Rightarrow> Request \<Rightarrow> ResponseWriter \<times> Request list" where
  "handleCEP e r =
     (let w = NewResponseWriter in
      if Method r \<noteq> ''POST'' then (WriteHeader StatusMethodNotAllowed w, [])
      else
        case Decode_CEPRequest (Body r) of
          Inl err \<Rightarrow> (respondError StatusUnprocessableEntity ''invalid zipcode'' w, [])
        | Inr req \<Rightarrow>
            let isValid = validateCEP (CEP req) in
            if \<not> isValid then (respondError StatusUnprocessableEntity ''invalid zipcode'' w, [])
            else
              let serviceBURL =
                    (if Getenv e ''SERVICE_B_URL'' = [] then ''http://service-b:8081''
                     else Getenv e ''SERVICE_B_URL'');
                  reqBody = Marshal_CEPRequest req
              in case NewRequestWithContext e ''POST'' (serviceBURL @ ''/weather'') reqBody of
                   Inl err \<Rightarrow> (respondError StatusInternalServerError ''internal error'' w, [])
                 | Inr httpReq0 \<Rightarrow>
                     let httpReq =
                           httpReq0\<lparr>Header :=
                             AList.update ''Content-Type'' ''application/json'' (Header httpReq0)\<rparr>
                     in case Do e httpReq of
                          Inl err \<Rightarrow>
                            (respondError StatusServiceUnavailable ''service unavailable'' w,
                             [httpReq])
                        | Inr resp \<Rightarrow>
                            let body = fst (ReadAll resp)
                            in (Write body
                                  (WriteHeader (StatusCode resp)
                                     (Header_Set ''Content-Type'' ''application/json'' w)),
                                [httpReq]))"

subsection \<open>The Orchestration service: service-b/main.go\<close>

definition lookupCEP :: "env \<Rightarrow> string \<Rightarrow> (error + ViaCEPResponse option) \<times> Request list" where
  "lookupCEP e cep =
     (case NewRequestWithContext e ''GET'' (''https://viacep.com.br/ws/'' @ cep @ ''/json/'') [] of
        Inl err \<Rightarrow> (Inl err, [])
      | Inr req \<Rightarrow>
          (case Do e req of
             Inl err \<Rightarrow> (Inl err, [req])
           | Inr resp \<Rightarrow>
               (case ReadAll resp of
                  (body, Some err) \<Rightarrow> (Inl err, [req])
                | (body, None) \<Rightarrow>
                    (case Unmarshal_ViaCEPResponse body of
                       Inl err \<Rightarrow> (Inl err, [req])
                     | Inr viaCEP \<Rightarrow>
                         if Erro viaCEP = ''true'' \<or> Localidade viaCEP = [] then (Inr None, [req])
                         else (Inr (Some viaCEP), [req])))))"

text \<open>\<open>url.QueryEscape\<close>: letters, digits and \<open>-_.~\<close> stay, a space becomes \<open>+\<close>, every other byte \<open>%XX\<close>.\<close>

definition shouldEscape :: "char \<Rightarrow> bool" where
  "shouldEscape c =
     (\<not> ((97 \<le> byte c \<and> byte c \<le> 122) \<or> (65 \<le> byte c \<and> byte c \<le> 90) \<or> isDigit c
         \<or> c = CHR ''-'' \<or> c = CHR ''_'' \<or> c = CHR ''.'' \<or> c = CHR ''~''))"

definition QueryEscape :: "string \<Rightarrow> string" where
  "QueryEscape s =
     concat (map (\<lambda>c. if c = CHR '' '' then ''+''
                       else if shouldEscape c then
                         [CHR ''%'', hexdigit ''0123456789ABCDEF'' (byte c div 16),
                          hexdigit ''0123456789ABCDEF'' (byte c)]
                       else [c]) s)"

definition weatherURL :: "string \<Rightarrow> string \<Rightarrow> string" where
  "weatherURL apiKey city =
     ''https://api.weatherapi.com/v1/current.json?key='' @ apiKey @ ''&q='' @ QueryEscape city
       @ ''&aqi=no''"

definition getWeather :: "'f float64 \<Rightarrow> env \<Rightarrow> string \<Rightarrow> (error + 'f) \<times> Request list" where
  "getWeather fl e city =
     (let apiKey = Getenv e ''WEATHER_API_KEY'' in
      if apiKey = [] then (Inl APIKeyNotSet, [])
      else
        let apiURL = weatherURL apiKey city
        in case NewRequestWithContext e ''GET'' apiURL [] of
             Inl err \<Rightarrow> (Inl err, [])
           | Inr req \<Rightarrow>
               (case Do e req of
                  Inl err \<Rightarrow> (Inl err, [req])
                | Inr resp \<Rightarrow>
                    if StatusCode resp \<noteq> StatusOK then (Inl (WeatherStatus (StatusCode resp)), [req])
                    else
                      (case ReadAll resp of
                         (body, Some err) \<Rightarrow> (Inl err, [req])
                       | (body, None) \<Rightarrow>
                           (case Unmarshal_WeatherAPIResponse fl body of
                              Inl err \<Rightarrow> (Inl err, [req])
                            | Inr weatherResp \<Rightarrow> (Inr (Current_TempC weatherResp), [req])))))"

definition celsiusToFahrenheit :: "'f float64 \<Rightarrow> 'f \<Rightarrow> 'f" where
  "celsiusToFahrenheit fl c = add fl (mul fl c (const fl ''1.8'')) (const fl ''32'')"

definition celsiusToKelvin :: "'f float64 \<Rightarrow> 'f \<Rightarrow> 'f" where
  "celsiusToKelvin fl c = add fl c (const fl ''273'')"

definition handleWeather :: "'f float64 \<Rightarrow> env \<Rightarrow> Request \<Rightarrow> ResponseWriter \<times> Request list" where
  "handleWeather fl e r =
     (let w = NewResponseWriter in
      if Method r \<noteq> ''POST'' then (WriteHeader StatusMethodNotAllowed w, [])
      else
        case Decode_CEPRequest (Body r) of
          Inl err \<Rightarrow> (respondError StatusUnprocessableEntity ''invalid zipcode'' w, [])
        | Inr req \<Rightarrow>
            if \<not> validateCEP (CEP req) then
              (respondError StatusUnprocessableEntity ''invalid zipcode'' w, [])
            else
              (case lookupCEP e (CEP req) of
                 (Inl err, sent) \<Rightarrow>
                   (respondError StatusInternalServerError ''internal error'' w, sent)
               | (Inr None, sent) \<Rightarrow>
                   (respondError StatusNotFound ''can not find zipcode'' w, sent)
               | (Inr (Some viaCEP), sent) \<Rightarrow>
                   (case getWeather fl e (Localidade viaCEP) of
                      (Inl err, sent') \<Rightarrow>
                        (respondError StatusInternalServerError ''failed to get weather'' w,
                         sent @ sent')
                    | (Inr tempC, sent') \<Rightarrow>
                        let tempF = celsiusToFahrenheit fl tempC;
                            tempK = celsiusToKelvin fl tempC;
                            response = \<lparr>City = Localidade viaCEP, TempC = tempC, TempF = tempF,
                                        TempK = tempK\<rparr>
                        in (Encode_WeatherResponse fl response
                              (WriteHeader StatusOK
                                 (Header_Set ''Content-Type'' ''application/json'' w)),
                            sent @ sent'))))"

text \<open>
  The deployed system: the Edge service reaches the Orchestration service over HTTP. What
  a client of a handler receives is the status the handler wrote (200 if it wrote none)
  and the body it wrote.
\<close>

definition received :: "ResponseWriter \<Rightarrow> Response" where
  "received w =
     \<lparr>StatusCode = (case w_status w of None \<Rightarrow> 200 | Some code \<Rightarrow> code), RespBody = w_body w,
      ReadErr = None\<rparr>"

subsection \<open>Vocabulary of the properties\<close>

text \<open>
  The body that \<open>Encode\<close> writes for \<open>ErrorResponse{Message: msg}\<close> when \<open>msg\<close> needs no
  escape (the JSON text and the line feed after it), and the whole response of an error
  branch.
\<close>

definition errorBody :: "string \<Rightarrow> string" where
  \<open>errorBody msg = ''{"message":"'' @ msg @ ''"}'' @ [CHR 0x0A]\<close>

definition errorResponse :: "int \<Rightarrow> string \<Rightarrow> ResponseWriter" where
  "errorResponse code msg =
     \<lparr>w_status = Some code, w_header = [(''Content-Type'', ''application/json'')],
      w_body = errorBody msg\<rparr>"

text \<open>The request that the Edge handler sends for an accepted \<open>CEPRequest\<close>.\<close>

definition serviceBURL :: "env \<Rightarrow> string" where
  "serviceBURL e =
     (if Getenv e ''SERVICE_B_URL'' = [] then ''http://service-b:8081''
      else Getenv e ''SERVICE_B_URL'')"

definition forwarded :: "env \<Rightarrow> CEPRequest \<Rightarrow> Request" where
  "forwarded e req =
     \<lparr>Method = ''POST'', URL = serviceBURL e @ ''/weather'',
      Header = [(''Content-Type'', ''application/json'')], Body = Marshal_CEPRequest req\<rparr>"

text \<open>The requests that \<open>lookupCEP\<close> and \<open>getWeather\<close> send.\<close>

definition viaCEPURL :: "string \<Rightarrow> string" where
  "viaCEPURL cep = ''https://viacep.com.br/ws/'' @ cep @ ''/json/''"

definition viaCEPRequest :: "string \<Rightarrow> Request" where
  "viaCEPRequest cep = \<lparr>Method = ''GET'', URL = viaCEPURL cep, Header = [], Body = []\<rparr>"

definition weatherRequest :: "string \<Rightarrow> string \<Rightarrow> Request" where
  "weatherRequest apiKey city =
     \<lparr>Method = ''GET'', URL = weatherURL apiKey city, Header = [], Body = []\<rparr>"

text \<open>The response of the success branch.\<close>

definition okResponse :: "'f float64 \<Rightarrow> string \<Rightarrow> 'f \<Rightarrow> ResponseWriter" where
  "okResponse fl city tempC =
     Encode_WeatherResponse fl
       \<lparr>City = city, TempC = tempC, TempF = celsiusToFahrenheit fl tempC,
        TempK = celsiusToKelvin fl tempC\<rparr>
       (WriteHeader StatusOK (Header_Set ''Content-Type'' ''application/json'' NewResponseWriter))"

text \<open>
  A request is rejected when its body does not decode into a \<open>CEPRequest\<close> or the decoded
  postal code fails the validator. A request to the Weather collaborator is one to its
  host.
\<close>

definition rejected :: "Request \<Rightarrow> bool" where
  "rejected r =
     (case Decode_CEPRequest (Body r) of Inl err \<Rightarrow> True | Inr req \<Rightarrow> \<not> validateCEP (CEP req))"

definition isWeatherCall :: "Request \<Rightarrow> bool" where
  "isWeatherCall q = (take 27 (URL q) = ''https://api.weatherapi.com/'')"

text \<open>The text that \<open>url.QueryEscape\<close> writes for one byte.\<close>

definition escapeChar :: "char \<Rightarrow> string" where
  "escapeChar c =
     (if c = CHR '' '' then ''+''
      else if shouldEscape c then
        [CHR ''%'', hexdigit ''0123456789ABCDEF'' (byte c div 16),
         hexdigit ''0123456789ABCDEF'' (byte c)]
      else [c])"

subsection \<open>Sample worlds\<close>

text \<open>
  Concrete inputs on which the properties are exercised: an uninterpreted arithmetic that
  keeps values as text, a world for the Edge handler in which the upstream call has one
  outcome, and a world for the Orchestration handler with a credential and one outcome for
  each collaborator.
\<close>

definition textFloat :: "string float64" where
  "textFloat =
     \<lparr>const = (\<lambda>s. s), mul = (\<lambda>a b. a @ ''*'' @ b), add = (\<lambda>a b. a @ ''+'' @ b),
      ParseFloat = (\<lambda>s. Some s), appendFloat = (\<lambda>x. Some x)\<rparr>"

definition edgeEnv :: "(error + Response) \<Rightarrow> env" where
  "edgeEnv out = \<lparr>Getenv = (\<lambda>k. []), ParseURL = (\<lambda>u. True), Do = (\<lambda>q. out)\<rparr>"

definition orchEnv :: "string \<Rightarrow> (error + Response) \<Rightarrow> (error + Response) \<Rightarrow> env" where
  "orchEnv apiKey lookupOut weatherOut =
     \<lparr>Getenv = (\<lambda>k. if k = ''WEATHER_API_KEY'' then apiKey else []), ParseURL = (\<lambda>u. True),
      Do = (\<lambda>q. if isWeatherCall q then weatherOut else lookupOut)\<rparr>"

definition post :: "string \<Rightarrow> Request" where
  "post body = \<lparr>Method = ''POST'', URL = [], Header = [], Body = body\<rparr>"

definition ok :: "string \<Rightarrow> error + Response" where
  "ok body = Inr \<lparr>StatusCode = 200, RespBody = body, ReadErr = None\<rparr>"

definition systemEnv :: "'f float64 \<Rightarrow> env \<Rightarrow> env" where
  "systemEnv fl eB =
     \<lparr>Getenv = (\<lambda>k. []), ParseURL = (\<lambda>u. True),
      Do = (\<lambda>q. Inr (received (fst (handleWeather fl eB q))))\<rparr>"

section \<open>Properties\<close>

subsection \<open>The validator\<close>

lemma inClass_digit: "inClass [(48, 57)] c = isDigit c"
  by (simp add: inClass_def isDigit_def)

lemma iter_class:
  "i \<le> length s \<Longrightarrow> iter n (ends (OpCharClass rs) s) i =
     (if i + n \<le> length s \<and> (\<forall>k<n. inClass rs (s ! (i + k))) then [i + n] else [])"
proof (induction n arbitrary: i)
  case 0
  then show ?case by simp
next
  case (Suc n)
  show ?case
  proof (cases "i < length s \<and> inClass rs (s ! i)")
    case True
    have "(\<forall>k<Suc n. inClass rs (s ! (i + k))) = (\<forall>k<n. inClass rs (s ! (Suc i + k)))"
      using True by (auto simp: less_Suc_eq_0_disj)
    moreover have "(i + Suc n \<le> length s) = (Suc i + n \<le> length s)" by simp
    ultimately show ?thesis using True Suc.IH[of "Suc i"] by simp
  next
    case False
    then show ?thesis using Suc.prems by (auto simp: less_Suc_eq_0_disj)
  qed
qed

lemma ends_cepPattern:
  "ends cepPattern s i =
     (if i = 0 \<and> length s = 8 \<and> (\<forall>k<8. isDigit (s ! k)) then [8] else [])"
  by (auto simp: cepPattern_def iter_class inClass_digit)

lemma MatchString_iff: "MatchString re s = (\<exists>i\<le>length s. ends re s i \<noteq> [])"
proof -
  have "set [0..<Suc (length s)] = {i. i \<le> length s}" by auto
  then show ?thesis unfolding MatchString_def list_ex_iff by blast
qed

lemma validateCEP_nth: "validateCEP s \<longleftrightarrow> length s = 8 \<and> (\<forall>k<8. isDigit (s ! k))"
  by (auto simp: validateCEP_def MatchString_iff ends_cepPattern)

lemma validateCEP_chars: "validateCEP s \<longleftrightarrow> length s = 8 \<and> (\<forall>c\<in>set s. isDigit c)"
  unfolding validateCEP_nth by (auto simp: all_set_conv_all_nth)

text \<open>
  C2. For every string \<open>s\<close>, the validator returns true if and only if \<open>s\<close> is exactly 8
  bytes long and every one of them is an ASCII digit. So it returns false for every string
  whose length is not 8 and for every string that holds a byte that is not a digit. (A
  string of ASCII digits has as many characters as bytes, and a character outside ASCII
  holds bytes that are not digits.) Both services run this same function.
\<close>

theorem validateCEP_iff:
  "(validateCEP s \<longleftrightarrow> length s = 8 \<and> (\<forall>c\<in>set s. isDigit c))
   \<and> (length s \<noteq> 8 \<longrightarrow> \<not> validateCEP s)
   \<and> ((\<exists>c\<in>set s. \<not> isDigit c) \<longrightarrow> \<not> validateCEP s)"
  using validateCEP_chars[of s] by blast

subsection \<open>Responses\<close>

declare parseValue.simps [simp del] parseElements.simps [simp del] parseMembers.simps [simp del]

lemmas respond_defs =
  respondError_def Encode_ErrorResponse_def Write_def WriteHeader_def Header_Set_def
  NewResponseWriter_def Marshal_ErrorResponse_def quote_def htmlSafe_def byte_def
  errorResponse_def errorBody_def

lemma respondError_invalid:
  "respondError StatusUnprocessableEntity ''invalid zipcode'' NewResponseWriter
     = errorResponse 422 ''invalid zipcode''"
  by (simp add: respond_defs StatusUnprocessableEntity_def)

lemma respondError_internal:
  "respondError StatusInternalServerError ''internal error'' NewResponseWriter
     = errorResponse 500 ''internal error''"
  by (simp add: respond_defs StatusInternalServerError_def)

lemma respondError_unavailable:
  "respondError StatusServiceUnavailable ''service unavailable'' NewResponseWriter
     = errorResponse 503 ''service unavailable''"
  by (simp add: respond_defs StatusServiceUnavailable_def)

lemma respondError_notfound:
  "respondError StatusNotFound ''can not find zipcode'' NewResponseWriter
     = errorResponse 404 ''can not find zipcode''"
  by (simp add: respond_defs StatusNotFound_def)

lemma respondError_weather:
  "respondError StatusInternalServerError ''failed to get weather'' NewResponseWriter
     = errorResponse 500 ''failed to get weather''"
  by (simp add: respond_defs StatusInternalServerError_def)

lemmas respondError_simps =
  respondError_invalid respondError_internal respondError_unavailable respondError_notfound
  respondError_weather

lemma isDigit_htmlSafe: "isDigit c \<Longrightarrow> byte c < 128 \<and> htmlSafe c"
  by (auto simp: isDigit_def htmlSafe_def byte_def)

lemma appendString_digits: "\<forall>c\<in>set ds. isDigit c \<Longrightarrow> appendString ds = ds"
  by (induction ds) (auto dest: isDigit_htmlSafe)

lemma Marshal_CEPRequest_valid:
  assumes "validateCEP (CEP req)"
  shows \<open>Marshal_CEPRequest req = ''{"cep":"'' @ CEP req @ ''"}''\<close>
  using assms by (simp add: Marshal_CEPRequest_def quote_def validateCEP_chars appendString_digits)

subsection \<open>The scanner consumes its input\<close>

text \<open>
  Every scanning function that succeeds returns a rest shorter than its input.
\<close>

lemma emit_Some: "emit out p = Some (x, r) \<Longrightarrow> \<exists>y. p = Some (y, r)"
  by (auto simp: emit_def)

lemma unquote_Cons_cases:
  assumes "unquote (c # cs) = Some (x, r)"
  shows "(c = CHR 0x22 \<and> r = cs)
    \<or> (\<exists>t out. length t \<le> length cs \<and> emit out (unquote t) = Some (x, r))"
proof -
  define U where "U = unquote"
  note a = assms[unfolded unquote.simps(2)[of c cs], folded U_def]
  have "(c = CHR 0x22 \<and> r = cs)
    \<or> (\<exists>t out. length t \<le> length cs \<and> emit out (U t) = Some (x, r))"
  proof (cases "c = CHR 0x22")
    case True
    then show ?thesis using a by simp
  next
    case nq: False
    show ?thesis
    proof (cases "c = CHR 0x5C")
      case True
      with a nq show ?thesis
        by (fastforce split: list.splits option.splits if_splits)
    next
      case False
      with a nq have "emit [c] (U cs) = Some (x, r) \<or> emit RuneError (U cs) = Some (x, r)
          \<or> emit (take (utf8Width (c # cs)) (c # cs)) (U (drop (utf8Width (c # cs) - 1) cs)) = Some (x, r)"
        by (simp add: Let_def del: utf8Width.simps split: if_splits)
      moreover have "length (drop (utf8Width (c # cs) - 1) cs) \<le> length cs" by simp
      ultimately show ?thesis by blast
    qed
  qed
  then show ?thesis unfolding U_def .
qed


lemma unquote_shorter: "unquote s = Some (x, r) \<Longrightarrow> length r < length s"
proof (induction "length s" arbitrary: s x r rule: less_induct)
  case less
  show ?case
  proof (cases s)
    case Nil
    then show ?thesis using less.prems by simp
  next
    case (Cons c cs)
    from unquote_Cons_cases[OF less.prems[unfolded Cons]] show ?thesis
    proof (elim disjE exE conjE)
      assume "r = cs"
      then show ?thesis using Cons by simp
    next
      fix t out
      assume len: "length t \<le> length cs" and e: "emit out (unquote t) = Some (x, r)"
      from emit_Some[OF e] obtain y where u: "unquote t = Some (y, r)" by blast
      have "length t < length s" using len Cons by simp
      from less.hyps[OF this u] len Cons show ?thesis by simp
    qed
  qed
qed

lemma digits_shorter: "digits s = (ds, r) \<Longrightarrow> length r \<le> length s"
proof (induction s arbitrary: ds r)
  case Nil
  then show ?case by simp
next
  case (Cons c s)
  show ?case
  proof (cases "isDigit c")
    case True
    obtain ds' r' where d: "digits s = (ds', r')" by (cases "digits s")
    with Cons.prems True have "r = r'" by simp
    with Cons.IH[OF d] show ?thesis by simp
  next
    case False
    with Cons.prems show ?thesis by simp
  qed
qed


lemma scanInt_shorter: "scanInt s = Some (lit, r) \<Longrightarrow> length r < length s"
proof (cases s)
  case Nil
  assume "scanInt s = Some (lit, r)"
  with Nil show ?thesis by (simp add: scanInt_def)
next
  case (Cons c cs)
  assume a: "scanInt s = Some (lit, r)"
  obtain ds r' where d: "digits cs = (ds, r')" by (cases "digits cs")
  from a Cons d have "r = cs \<or> r = r'"
    by (simp add: scanInt_def split: if_splits)
  with digits_shorter[OF d] Cons show ?thesis by auto
qed

lemma scanFrac_shorter: "scanFrac s = Some (lit, r) \<Longrightarrow> length r \<le> length s"
proof (cases s)
  case Nil
  assume "scanFrac s = Some (lit, r)"
  with Nil show ?thesis by (simp add: scanFrac_def)
next
  case (Cons c cs)
  assume a: "scanFrac s = Some (lit, r)"
  obtain ds r' where d: "digits cs = (ds, r')" by (cases "digits cs")
  from a Cons d have "r = s \<or> r = r'"
    by (simp add: scanFrac_def split: if_splits)
  with digits_shorter[OF d] Cons show ?thesis by auto
qed

lemma scanExp_shorter:
  assumes "scanExp s = Some (lit, r)"
  shows "length r \<le> length s"
proof (cases s)
  case Nil
  with assms show ?thesis by (simp add: scanExp_def)
next
  case (Cons c cs)
  show ?thesis
  proof (cases "c = CHR ''e'' \<or> c = CHR ''E''")
    case False
    with assms Cons show ?thesis by (auto simp add: scanExp_def)
  next
    case True
    define s2 where
      "s2 = (case cs of [] \<Rightarrow> cs | c' # cs' \<Rightarrow> if c' = CHR ''+'' \<or> c' = CHR ''-'' then cs' else cs)"
    have s2: "length s2 \<le> length cs" by (simp add: s2_def split: list.splits)
    obtain ds r' where d: "digits s2 = (ds, r')" by (cases "digits s2")
    from assms Cons True d have "r = r'"
      by (auto simp add: scanExp_def s2_def split: list.splits if_splits)
    with digits_shorter[OF d] s2 Cons show ?thesis by simp
  qed
qed

lemma scanNumber_shorter:
  assumes "scanNumber s = Some (lit, r)"
  shows "length r < length s"
proof -
  define s0 where "s0 = (case s of [] \<Rightarrow> s | c # cs \<Rightarrow> if c = CHR ''-'' then cs else s)"
  have s0: "length s0 \<le> length s" by (simp add: s0_def split: list.splits)
  from assms obtain i s1 f s2 e where
    "scanInt s0 = Some (i, s1)" "scanFrac s1 = Some (f, s2)" "scanExp s2 = Some (e, r)"
    by (auto simp: scanNumber_def s0_def split: list.splits if_splits option.splits)
  from scanInt_shorter[OF this(1)] scanFrac_shorter[OF this(2)] scanExp_shorter[OF this(3)] s0
  show ?thesis by simp
qed

lemma scanLiteral_shorter:
  assumes "scanLiteral (c # cs) = Some (v, r)"
  shows "length r < Suc (length cs)"
proof -
  from assms have "r = drop 4 (c # cs) \<or> r = drop 5 (c # cs)"
    by (auto simp: scanLiteral_def simp del: drop_Suc_Cons split: if_splits)
  then show ?thesis by auto
qed

lemma skipSpace_le: "length (skipSpace s) \<le> length s"
  by (simp add: skipSpace_def length_dropWhile_le)


lemma skipSpace_Cons_less: "skipSpace s = c # cs \<Longrightarrow> length cs < length s"
  using skipSpace_le[of s] by simp

lemma parseValue_step:
  assumes "parseValue d s = Some (v, r)"
    and M: "\<And>cs ms. length cs < length s \<Longrightarrow> parseMembers (Suc d) cs = Some (ms, r) \<Longrightarrow> length r < length cs"
    and E: "\<And>cs vs. length cs < length s \<Longrightarrow> parseElements (Suc d) cs = Some (vs, r) \<Longrightarrow> length r < length cs"
  shows "length r < length s"
proof -
  obtain c cs where sk: "skipSpace s = c # cs"
    using assms(1) by (subst (asm) parseValue.simps) (auto split: list.splits)
  note len = skipSpace_Cons_less[OF sk]
  note a = assms(1)[unfolded parseValue.simps[of d s] sk list.case]
  consider (obj) "c = CHR ''{''" | (arr) "c \<noteq> CHR ''{''" "c = CHR ''[''"
    | (str) "c \<noteq> CHR ''{''" "c \<noteq> CHR ''[''" "c = CHR 0x22"
    | (num) "c \<noteq> CHR ''{''" "c \<noteq> CHR ''[''" "c \<noteq> CHR 0x22" "c = CHR ''-'' \<or> isDigit c"
    | (lit) "c \<noteq> CHR ''{''" "c \<noteq> CHR ''[''" "c \<noteq> CHR 0x22" "\<not> (c = CHR ''-'' \<or> isDigit c)"
    by blast
  then show ?thesis
  proof cases
    case obj
    with a obtain c1 cs1 where sk1: "skipSpace cs = c1 # cs1"
      by (auto split: if_splits list.splits)
    show ?thesis
    proof (cases "c1 = CHR ''}''")
      case True
      with a obj sk1 have "r = cs1" by (auto split: if_splits)
      with skipSpace_Cons_less[OF sk1] len show ?thesis by simp
    next
      case False
      with a obj sk1 obtain ms where "parseMembers (Suc d) cs = Some (ms, r)"
        by (auto split: if_splits)
      from M[OF len this] len show ?thesis by simp
    qed
  next
    case arr
    with a obtain c1 cs1 where sk1: "skipSpace cs = c1 # cs1"
      by (auto split: if_splits list.splits)
    show ?thesis
    proof (cases "c1 = CHR '']''")
      case True
      with a arr sk1 have "r = cs1" by (auto split: if_splits)
      with skipSpace_Cons_less[OF sk1] len show ?thesis by simp
    next
      case False
      with a arr sk1 obtain vs where "parseElements (Suc d) cs = Some (vs, r)"
        by (auto split: if_splits)
      from E[OF len this] len show ?thesis by simp
    qed
  next
    case str
    with a obtain x where "unquote cs = Some (x, r)" by auto
    from unquote_shorter[OF this] len show ?thesis by simp
  next
    case num
    with a obtain l where "scanNumber (c # cs) = Some (l, r)" by auto
    from scanNumber_shorter[OF this] len show ?thesis by simp
  next
    case lit
    with a have "scanLiteral (c # cs) = Some (v, r)" by auto
    from scanLiteral_shorter[OF this] len show ?thesis by simp
  qed
qed


lemma parseElements_step:
  assumes "parseElements d s = Some (vs, r)"
    and V: "\<And>v rest. parseValue d s = Some (v, rest) \<Longrightarrow> length rest < length s"
    and E: "\<And>cs vs'. length cs < length s \<Longrightarrow> parseElements d cs = Some (vs', r) \<Longrightarrow> length r < length cs"
  shows "length r < length s"
proof -
  note a = assms(1)[unfolded parseElements.simps[of d s]]
  from a obtain v rest where pv: "parseValue d s = Some (v, rest)"
    by (auto split: option.splits)
  note a1 = a[unfolded pv option.case prod.case]
  from a1 obtain c cs where sk: "skipSpace rest = c # cs"
    by (auto split: list.splits)
  note a2 = a1[unfolded sk list.case]
  have len: "length cs < length s"
    using skipSpace_Cons_less[OF sk] V[OF pv] by simp
  show ?thesis
  proof (cases "c = CHR '']''")
    case True
    with a2 have "r = cs" by simp
    with len show ?thesis by simp
  next
    case False
    with a2 obtain vs' where "parseElements d cs = Some (vs', r)"
      by (auto split: if_splits)
    from E[OF len this] len show ?thesis by simp
  qed
qed

lemma parseMembers_step:
  assumes "parseMembers d s = Some (ms, r)"
    and V: "\<And>t v rest. length t < length s \<Longrightarrow> parseValue d t = Some (v, rest) \<Longrightarrow> length rest < length t"
    and M: "\<And>cs ms'. length cs < length s \<Longrightarrow> parseMembers d cs = Some (ms', r) \<Longrightarrow> length r < length cs"
  shows "length r < length s"
proof -
  note a = assms(1)[unfolded parseMembers.simps[of d s]]
  from a obtain q s1 where sk: "skipSpace s = q # s1"
    by (auto split: list.splits)
  note a1 = a[unfolded sk list.case]
  from a1 have q: "q = CHR 0x22" by (auto split: if_splits)
  from a1 q obtain k s2 where uq: "unquote s1 = Some (k, s2)"
    by (auto split: option.splits)
  from a1 q have a2: "(case skipSpace s2 of
        [] \<Rightarrow> None
      | colon # s3 \<Rightarrow>
          if colon \<noteq> CHR '':'' \<or> \<not> length s3 < length s then None
          else
            (case parseValue d s3 of
               None \<Rightarrow> None
             | Some (v, rest) \<Rightarrow>
                 (case skipSpace rest of
                    [] \<Rightarrow> None
                  | c # cs \<Rightarrow>
                      if c = CHR ''}'' then Some ([(k, v)], cs)
                      else if c = CHR '','' \<and> length cs < length s then
                        map_option (\<lambda>(ms, rest'). ((k, v) # ms, rest')) (parseMembers d cs)
                      else None))) = Some (ms, r)"
    by (simp add: uq)
  from a2 obtain colon s3 where sk2: "skipSpace s2 = colon # s3"
    by (auto split: list.splits)
  note a3 = a2[unfolded sk2 list.case]
  from a3 have g: "length s3 < length s" by (auto split: if_splits)
  from a3 g obtain v rest where pv: "parseValue d s3 = Some (v, rest)"
    by (auto split: if_splits option.splits)
  from a3 g pv obtain c cs where sk3: "skipSpace rest = c # cs"
    by (auto split: if_splits list.splits)
  have len: "length cs < length s"
    using skipSpace_Cons_less[OF sk3] V[OF g pv] g by simp
  show ?thesis
  proof (cases "c = CHR ''}''")
    case True
    with a3 g pv sk3 have "r = cs" by (auto split: if_splits)
    with len show ?thesis by simp
  next
    case False
    with a3 g pv sk3 obtain ms' where "parseMembers d cs = Some (ms', r)"
      by (auto split: if_splits)
    from M[OF len this] len show ?thesis by simp
  qed
qed

lemma parse_shorter_all:
  "(\<forall>d v r. parseValue d s = Some (v, r) \<longrightarrow> length r < length s)
   \<and> (\<forall>d vs r. parseElements d s = Some (vs, r) \<longrightarrow> length r < length s)
   \<and> (\<forall>d ms r. parseMembers d s = Some (ms, r) \<longrightarrow> length r < length s)"
proof (induction "length s" arbitrary: s rule: less_induct)
  case less
  have V: "length r < length s" if "parseValue d s = Some (v, r)" for d v r
  proof (rule parseValue_step[OF that])
    fix cs ms
    assume "length cs < length s" "parseMembers (Suc d) cs = Some (ms, r)"
    then show "length r < length cs" using less.hyps[of cs] by blast
  next
    fix cs vs
    assume "length cs < length s" "parseElements (Suc d) cs = Some (vs, r)"
    then show "length r < length cs" using less.hyps[of cs] by blast
  qed
  have E: "length r < length s" if "parseElements d s = Some (vs, r)" for d vs r
  proof (rule parseElements_step[OF that])
    fix v rest
    assume "parseValue d s = Some (v, rest)"
    then show "length rest < length s" by (rule V)
  next
    fix cs vs'
    assume "length cs < length s" "parseElements d cs = Some (vs', r)"
    then show "length r < length cs" using less.hyps[of cs] by blast
  qed
  have M: "length r < length s" if "parseMembers d s = Some (ms, r)" for d ms r
  proof (rule parseMembers_step[OF that])
    fix t v rest
    assume "length t < length s" "parseValue d t = Some (v, rest)"
    then show "length rest < length t" using less.hyps[of t] by blast
  next
    fix cs ms'
    assume "length cs < length s" "parseMembers d cs = Some (ms', r)"
    then show "length r < length cs" using less.hyps[of cs] by blast
  qed
  from V E M show ?case by blast
qed

lemma parseValue_shorter: "parseValue d s = Some (v, r) \<Longrightarrow> length r < length s"
  using parse_shorter_all[of s] by blast


text \<open>
  So the comparisons of lengths in \<open>parseElements\<close> and \<open>parseMembers\<close> never fail: both
  functions satisfy their equations without them.
\<close>

lemma parseElements_unguarded:
  "parseElements d s =
     (case parseValue d s of
        None \<Rightarrow> None
      | Some (v, rest) \<Rightarrow>
          (case skipSpace rest of
             [] \<Rightarrow> None
           | c # cs \<Rightarrow>
               if c = CHR '']'' then Some ([v], cs)
               else if c = CHR '','' then
                 map_option (\<lambda>(vs, rest'). (v # vs, rest')) (parseElements d cs)
               else None))"
proof (cases "parseValue d s")
  case None
  then show ?thesis by (subst parseElements.simps) simp
next
  case (Some p)
  obtain v rest where p: "p = (v, rest)" by (cases p)
  show ?thesis
  proof (cases "skipSpace rest")
    case Nil
    with Some p show ?thesis by (subst parseElements.simps) simp
  next
    case (Cons c cs)
    have "length cs < length s"
      using skipSpace_Cons_less[OF Cons] parseValue_shorter[OF Some[unfolded p]] by simp
    with Some p Cons show ?thesis by (subst parseElements.simps) simp
  qed
qed


lemma parseMembers_unguarded:
  "parseMembers d s =
     (case skipSpace s of
        [] \<Rightarrow> None
      | q # s1 \<Rightarrow>
          if q \<noteq> CHR 0x22 then None
          else
            (case unquote s1 of
               None \<Rightarrow> None
             | Some (k, s2) \<Rightarrow>
                 (case skipSpace s2 of
                    [] \<Rightarrow> None
                  | colon # s3 \<Rightarrow>
                      if colon \<noteq> CHR '':'' then None
                      else
                        (case parseValue d s3 of
                           None \<Rightarrow> None
                         | Some (v, rest) \<Rightarrow>
                             (case skipSpace rest of
                                [] \<Rightarrow> None
                              | c # cs \<Rightarrow>
                                  if c = CHR ''}'' then Some ([(k, v)], cs)
                                  else if c = CHR '','' then
                                    map_option (\<lambda>(ms, rest'). ((k, v) # ms, rest'))
                                      (parseMembers d cs)
                                  else None)))))"
proof (cases "skipSpace s")
  case Nil
  then show ?thesis by (subst parseMembers.simps) simp
next
  case s: (Cons q s1)
  show ?thesis
  proof (cases "unquote s1")
    case None
    with s show ?thesis by (subst parseMembers.simps) simp
  next
    case (Some p)
    obtain k s2 where p: "p = (k, s2)" by (cases p)
    show ?thesis
    proof (cases "skipSpace s2")
      case Nil
      with s Some p show ?thesis by (subst parseMembers.simps) simp
    next
      case s2: (Cons colon s3)
      have g: "length s3 < length s"
        using skipSpace_Cons_less[OF s] unquote_shorter[OF Some[unfolded p]]
          skipSpace_Cons_less[OF s2] by simp
      show ?thesis
      proof (cases "parseValue d s3")
        case None
        with s Some p s2 show ?thesis by (subst parseMembers.simps) simp
      next
        case v: (Some p')
        obtain v rest where p': "p' = (v, rest)" by (cases p')
        show ?thesis
        proof (cases "skipSpace rest")
          case Nil
          with s Some p s2 v p' show ?thesis by (subst parseMembers.simps) simp
        next
          case (Cons c cs)
          have "length cs < length s"
            using skipSpace_Cons_less[OF Cons] parseValue_shorter[OF v[unfolded p']] g by simp
          with s Some p s2 v p' Cons g show ?thesis by (subst parseMembers.simps) simp
        qed
      qed
    qed
  qed
qed


subsection \<open>The Edge handler\<close>

lemma written_response:
  "Write body (WriteHeader code (Header_Set ''Content-Type'' ''application/json'' NewResponseWriter))
     = \<lparr>w_status = Some code, w_header = [(''Content-Type'', ''application/json'')],
        w_body = body\<rparr>"
  by (simp add: Write_def WriteHeader_def Header_Set_def NewResponseWriter_def)

lemma handleCEP_accepted:
  assumes "Method r = ''POST''" and "Decode_CEPRequest (Body r) = Inr req"
    and "validateCEP (CEP req)"
  shows "handleCEP e r =
     (if \<not> ParseURL e (serviceBURL e @ ''/weather'') then (errorResponse 500 ''internal error'', [])
      else case Do e (forwarded e req) of
             Inl err \<Rightarrow> (errorResponse 503 ''service unavailable'', [forwarded e req])
           | Inr resp \<Rightarrow>
               (\<lparr>w_status = Some (StatusCode resp),
                 w_header = [(''Content-Type'', ''application/json'')],
                 w_body = RespBody resp\<rparr>, [forwarded e req]))"
  using assms
  by (simp add: handleCEP_def Let_def NewRequestWithContext_def serviceBURL_def forwarded_def
      respondError_simps ReadAll_def written_response split: sum.splits)

lemma handleCEP_rejected:
  assumes "Method r = ''POST''"
    and "(\<exists>err. Decode_CEPRequest (Body r) = Inl err)
         \<or> (\<exists>req. Decode_CEPRequest (Body r) = Inr req \<and> \<not> validateCEP (CEP req))"
  shows "handleCEP e r = (errorResponse 422 ''invalid zipcode'', [])"
  using assms
  by (auto simp add: handleCEP_def Let_def respondError_simps split: sum.splits)

lemma handleCEP_method:
  assumes "Method r \<noteq> ''POST''"
  shows "handleCEP e r = (\<lparr>w_status = Some 405, w_header = [], w_body = []\<rparr>, [])"
  using assms
  by (simp add: handleCEP_def Let_def WriteHeader_def NewResponseWriter_def
      StatusMethodNotAllowed_def)

text \<open>
  C4. For every response that the Edge handler receives from its call to the Orchestration
  service, whatever its status code, the handler answers the client with exactly that
  status code and exactly the bytes of that body: it does not interpret them. (The body is
  what \<open>io.ReadAll\<close> delivers; the handler ignores a read error.)
\<close>

theorem relay_verbatim:
  assumes "Method r = ''POST''" and "Decode_CEPRequest (Body r) = Inr req"
    and "validateCEP (CEP req)" and "ParseURL e (serviceBURL e @ ''/weather'')"
    and "Do e (forwarded e req) = Inr resp"
  shows "w_status (fst (handleCEP e r)) = Some (StatusCode resp)
         \<and> w_body (fst (handleCEP e r)) = RespBody resp"
  using assms by (simp add: handleCEP_accepted)

text \<open>
  C7. When the call of the Edge handler to the Orchestration service fails in the
  transport (connection refused, timeout: \<open>client.Do\<close> returns an error), the handler
  answers with status 503 and the body \<open>{"message":"service unavailable"}\<close>, which
  \<open>Encode\<close> ends with a line feed.
\<close>

theorem unavailable_503:
  assumes "Method r = ''POST''" and "Decode_CEPRequest (Body r) = Inr req"
    and "validateCEP (CEP req)" and "ParseURL e (serviceBURL e @ ''/weather'')"
    and "Do e (forwarded e req) = Inl err"
  shows \<open>fst (handleCEP e r) =
           \<lparr>w_status = Some 503, w_header = [(''Content-Type'', ''application/json'')],
            w_body = ''{"message":"service unavailable"}'' @ [CHR 0x0A]\<rparr>\<close>
  using assms by (simp add: handleCEP_accepted errorResponse_def errorBody_def)

text \<open>
  C9. For every request that the Edge handler accepts (the body decodes and the postal
  code passes the validator), every request it sends upstream has the body
  \<open>{"cep":"<cep>"}\<close> with the validated postal code, and it sends exactly one such request
  when the upstream URL is accepted. The body is the encoding of the decoded struct, so it
  depends on nothing else in the client's body: other fields, white space and bytes after
  the first JSON value are not forwarded.
\<close>

theorem forwarded_body:
  assumes "Method r = ''POST''" and "Decode_CEPRequest (Body r) = Inr req"
    and "validateCEP (CEP req)"
  shows \<open>(\<forall>q\<in>set (snd (handleCEP e r)). Body q = ''{"cep":"'' @ CEP req @ ''"}'')
         \<and> (ParseURL e (serviceBURL e @ ''/weather'') \<longrightarrow>
              snd (handleCEP e r) =
                [\<lparr>Method = ''POST'', URL = serviceBURL e @ ''/weather'',
                  Header = [(''Content-Type'', ''application/json'')],
                  Body = ''{"cep":"'' @ CEP req @ ''"}''\<rparr>])\<close>
  using assms
  by (auto simp add: handleCEP_accepted forwarded_def Marshal_CEPRequest_valid split: sum.splits)

subsection \<open>The Orchestration handler\<close>

lemma lookupCEP_eq:
  "lookupCEP e cep =
     (if \<not> ParseURL e (viaCEPURL cep) then (Inl URLError, [])
      else case Do e (viaCEPRequest cep) of
             Inl err \<Rightarrow> (Inl err, [viaCEPRequest cep])
           | Inr resp \<Rightarrow>
               (case ReadErr resp of
                  Some err \<Rightarrow> (Inl err, [viaCEPRequest cep])
                | None \<Rightarrow>
                    (case Unmarshal_ViaCEPResponse (RespBody resp) of
                       Inl err \<Rightarrow> (Inl err, [viaCEPRequest cep])
                     | Inr v \<Rightarrow>
                         if Erro v = ''true'' \<or> Localidade v = [] then (Inr None, [viaCEPRequest cep])
                         else (Inr (Some v), [viaCEPRequest cep]))))"
  by (auto simp add: lookupCEP_def NewRequestWithContext_def viaCEPRequest_def viaCEPURL_def
      ReadAll_def split: sum.splits option.splits)

lemma getWeather_eq:
  "getWeather fl e city =
     (let apiKey = Getenv e ''WEATHER_API_KEY'' in
      if apiKey = [] then (Inl APIKeyNotSet, [])
      else if \<not> ParseURL e (weatherURL apiKey city) then (Inl URLError, [])
      else case Do e (weatherRequest apiKey city) of
             Inl err \<Rightarrow> (Inl err, [weatherRequest apiKey city])
           | Inr resp \<Rightarrow>
               if StatusCode resp \<noteq> 200 then
                 (Inl (WeatherStatus (StatusCode resp)), [weatherRequest apiKey city])
               else
                 (case ReadErr resp of
                    Some err \<Rightarrow> (Inl err, [weatherRequest apiKey city])
                  | None \<Rightarrow>
                      (case Unmarshal_WeatherAPIResponse fl (RespBody resp) of
                         Inl err \<Rightarrow> (Inl err, [weatherRequest apiKey city])
                       | Inr wr \<Rightarrow> (Inr (Current_TempC wr), [weatherRequest apiKey city]))))"
  by (auto simp add: getWeather_def NewRequestWithContext_def weatherRequest_def ReadAll_def
      Let_def StatusOK_def split: sum.splits option.splits)

lemma okResponse_status: "w_status (okResponse fl city tempC) = Some 200"
  by (simp add: okResponse_def Encode_WeatherResponse_def Write_def WriteHeader_def Header_Set_def
      NewResponseWriter_def StatusOK_def split: option.splits)

lemma handleWeather_accepted:
  assumes "Method r = ''POST''" and "Decode_CEPRequest (Body r) = Inr req"
    and "validateCEP (CEP req)"
  shows "handleWeather fl e r =
     (case lookupCEP e (CEP req) of
        (Inl err, sent) \<Rightarrow> (errorResponse 500 ''internal error'', sent)
      | (Inr None, sent) \<Rightarrow> (errorResponse 404 ''can not find zipcode'', sent)
      | (Inr (Some v), sent) \<Rightarrow>
          (case getWeather fl e (Localidade v) of
             (Inl err, sent') \<Rightarrow> (errorResponse 500 ''failed to get weather'', sent @ sent')
           | (Inr tempC, sent') \<Rightarrow> (okResponse fl (Localidade v) tempC, sent @ sent')))"
  using assms
  by (simp add: handleWeather_def Let_def respondError_simps okResponse_def
      split: sum.splits option.splits prod.splits)

lemma handleWeather_rejected:
  assumes "Method r = ''POST''"
    and "(\<exists>err. Decode_CEPRequest (Body r) = Inl err)
         \<or> (\<exists>req. Decode_CEPRequest (Body r) = Inr req \<and> \<not> validateCEP (CEP req))"
  shows "handleWeather fl e r = (errorResponse 422 ''invalid zipcode'', [])"
  using assms
  by (auto simp add: handleWeather_def Let_def respondError_simps split: sum.splits)

lemma handleWeather_method:
  assumes "Method r \<noteq> ''POST''"
  shows "handleWeather fl e r = (\<lparr>w_status = Some 405, w_header = [], w_body = []\<rparr>, [])"
  using assms
  by (simp add: handleWeather_def Let_def WriteHeader_def NewResponseWriter_def
      StatusMethodNotAllowed_def)

text \<open>
  C3. In the Orchestration handler, for a POST request whose postal code passes the
  validator: when the Address-Lookup response decodes into the record and its locality is
  empty or its field \<open>erro\<close> is the string \<open>true\<close>, the answer is status 404 with the
  message \<open>can not find zipcode\<close>; when the call fails in the transport, or the body
  cannot be read or does not decode, the answer is status 500 with the message
  \<open>internal error\<close>. A lookup that found nothing and a lookup that failed never give the
  same status code.
\<close>

theorem notfound_404_error_500:
  assumes "Method r = ''POST''" and "Decode_CEPRequest (Body r) = Inr req"
    and "validateCEP (CEP req)"
  shows \<open>(\<forall>resp v. ParseURL e (viaCEPURL (CEP req)) \<and> Do e (viaCEPRequest (CEP req)) = Inr resp
             \<and> ReadErr resp = None \<and> Unmarshal_ViaCEPResponse (RespBody resp) = Inr v
             \<and> (Localidade v = [] \<or> Erro v = ''true'')
           \<longrightarrow> fst (handleWeather fl e r) =
                 \<lparr>w_status = Some 404, w_header = [(''Content-Type'', ''application/json'')],
                  w_body = ''{"message":"can not find zipcode"}'' @ [CHR 0x0A]\<rparr>)
       \<and> (\<forall>err. ParseURL e (viaCEPURL (CEP req)) \<and> Do e (viaCEPRequest (CEP req)) = Inl err
           \<longrightarrow> fst (handleWeather fl e r) =
                 \<lparr>w_status = Some 500, w_header = [(''Content-Type'', ''application/json'')],
                  w_body = ''{"message":"internal error"}'' @ [CHR 0x0A]\<rparr>)
       \<and> (\<forall>resp err. ParseURL e (viaCEPURL (CEP req)) \<and> Do e (viaCEPRequest (CEP req)) = Inr resp
             \<and> (ReadErr resp = Some err \<or> Unmarshal_ViaCEPResponse (RespBody resp) = Inl err)
           \<longrightarrow> fst (handleWeather fl e r) =
                 \<lparr>w_status = Some 500, w_header = [(''Content-Type'', ''application/json'')],
                  w_body = ''{"message":"internal error"}'' @ [CHR 0x0A]\<rparr>)
       \<and> (\<forall>e'. fst (lookupCEP e (CEP req)) = Inr None \<and> (\<exists>err. fst (lookupCEP e' (CEP req)) = Inl err)
           \<longrightarrow> w_status (fst (handleWeather fl e r)) = Some 404
               \<and> w_status (fst (handleWeather fl e' r)) = Some 500
               \<and> w_status (fst (handleWeather fl e r)) \<noteq> w_status (fst (handleWeather fl e' r)))\<close>
proof (intro conjI allI impI)
  fix resp v
  assume "ParseURL e (viaCEPURL (CEP req)) \<and> Do e (viaCEPRequest (CEP req)) = Inr resp
             \<and> ReadErr resp = None \<and> Unmarshal_ViaCEPResponse (RespBody resp) = Inr v
             \<and> (Localidade v = [] \<or> Erro v = ''true'')"
  then have "lookupCEP e (CEP req) = (Inr None, [viaCEPRequest (CEP req)])"
    by (auto simp: lookupCEP_eq)
  then show \<open>fst (handleWeather fl e r) =
                 \<lparr>w_status = Some 404, w_header = [(''Content-Type'', ''application/json'')],
                  w_body = ''{"message":"can not find zipcode"}'' @ [CHR 0x0A]\<rparr>\<close>
    by (simp add: handleWeather_accepted[OF assms] errorResponse_def errorBody_def)
next
  fix err
  assume "ParseURL e (viaCEPURL (CEP req)) \<and> Do e (viaCEPRequest (CEP req)) = Inl err"
  then have "lookupCEP e (CEP req) = (Inl err, [viaCEPRequest (CEP req)])"
    by (auto simp: lookupCEP_eq)
  then show \<open>fst (handleWeather fl e r) =
                 \<lparr>w_status = Some 500, w_header = [(''Content-Type'', ''application/json'')],
                  w_body = ''{"message":"internal error"}'' @ [CHR 0x0A]\<rparr>\<close>
    by (simp add: handleWeather_accepted[OF assms] errorResponse_def errorBody_def)
next
  fix resp err
  assume "ParseURL e (viaCEPURL (CEP req)) \<and> Do e (viaCEPRequest (CEP req)) = Inr resp
             \<and> (ReadErr resp = Some err \<or> Unmarshal_ViaCEPResponse (RespBody resp) = Inl err)"
  then have "\<exists>err'. lookupCEP e (CEP req) = (Inl err', [viaCEPRequest (CEP req)])"
    by (auto simp: lookupCEP_eq split: option.splits)
  then show \<open>fst (handleWeather fl e r) =
                 \<lparr>w_status = Some 500, w_header = [(''Content-Type'', ''application/json'')],
                  w_body = ''{"message":"internal error"}'' @ [CHR 0x0A]\<rparr>\<close>
    by (auto simp add: handleWeather_accepted[OF assms] errorResponse_def errorBody_def)
next
  fix e'
  assume a: "fst (lookupCEP e (CEP req)) = Inr None \<and> (\<exists>err. fst (lookupCEP e' (CEP req)) = Inl err)"
  from a show "w_status (fst (handleWeather fl e r)) = Some 404"
    by (cases "lookupCEP e (CEP req)")
       (simp add: handleWeather_accepted[OF assms] errorResponse_def)
  from a show "w_status (fst (handleWeather fl e' r)) = Some 500"
    by (cases "lookupCEP e' (CEP req)")
       (auto simp add: handleWeather_accepted[OF assms] errorResponse_def)
  from a show "w_status (fst (handleWeather fl e r)) \<noteq> w_status (fst (handleWeather fl e' r))"
    by (cases "lookupCEP e (CEP req)"; cases "lookupCEP e' (CEP req)")
       (auto simp add: handleWeather_accepted[OF assms] errorResponse_def)
qed


lemma storeString_error: "snd (storeString v old) = None \<or> snd (storeString v old) = Some UnmarshalTypeError"
  by (cases v) simp_all

lemma saveError_cases:
  "saveError saved e = (case saved of None \<Rightarrow> e | Some x \<Rightarrow> Some x)"
  by (simp add: saveError_def split: option.splits)

lemma ViaCEPResponse_member_snd:
  "snd (ViaCEPResponse_member (k, v) (r, saved)) =
     (if foldName k \<in> {''CEP'', ''LOGRADOURO'', ''COMPLEMENTO'', ''BAIRRO'', ''LOCALIDADE'', ''UF'', ''ERRO''}
      then saveError saved (case v of JString s \<Rightarrow> None | JNull \<Rightarrow> None | _ \<Rightarrow> Some UnmarshalTypeError)
      else saved)"
  by (cases v) (simp_all add: ViaCEPResponse_member_def Let_def)

lemma ViaCEPResponse_fold_saved:
  "snd st = Some UnmarshalTypeError \<Longrightarrow> snd (fold ViaCEPResponse_member ms st) = Some UnmarshalTypeError"
proof (induction ms arbitrary: st)
  case Nil
  then show ?case by simp
next
  case (Cons m ms)
  obtain k v where m: "m = (k, v)" by (cases m)
  obtain r saved where st: "st = (r, saved)" by (cases st)
  have "snd (ViaCEPResponse_member m st) = Some UnmarshalTypeError"
    using Cons.prems unfolding m st ViaCEPResponse_member_snd by (simp add: saveError_def)
  then show ?case using Cons.IH by simp
qed

lemma ViaCEPResponse_fold_bool:
  assumes "(k, JBool b) \<in> set ms" and "foldName k = ''ERRO''"
    and "snd st = None \<or> snd st = Some UnmarshalTypeError"
  shows "snd (fold ViaCEPResponse_member ms st) = Some UnmarshalTypeError"
  using assms
proof (induction ms arbitrary: st)
  case Nil
  then show ?case by simp
next
  case (Cons m ms)
  obtain k' v' where m: "m = (k', v')" by (cases m)
  obtain r saved where st: "st = (r, saved)" by (cases st)
  show ?case
  proof (cases "m = (k, JBool b)")
    case True
    have "snd (ViaCEPResponse_member m st) = Some UnmarshalTypeError"
      using Cons.prems(2,3) unfolding True st ViaCEPResponse_member_snd
      by (auto simp: saveError_def)
    then show ?thesis by (simp add: ViaCEPResponse_fold_saved)
  next
    case False
    then have mem: "(k, JBool b) \<in> set ms" using Cons.prems(1) by auto
    have "snd (ViaCEPResponse_member m st) = None
          \<or> snd (ViaCEPResponse_member m st) = Some UnmarshalTypeError"
      using Cons.prems(3) unfolding m st ViaCEPResponse_member_snd
      by (cases v') (auto simp: saveError_def)
    then show ?thesis using Cons.IH[OF mem Cons.prems(2)] by simp
  qed
qed

lemma Unmarshal_ViaCEPResponse_bool:
  assumes "checkValid data = Some (JObject ms)" and "(k, JBool b) \<in> set ms"
    and "foldName k = ''ERRO''"
  shows "Unmarshal_ViaCEPResponse data = Inl UnmarshalTypeError"
proof -
  let ?z = "\<lparr>ViaCEP_CEP = [], Logradouro = [], Complemento = [], Bairro = [], Localidade = [],
             UF = [], Erro = []\<rparr>"
  have "snd (fold ViaCEPResponse_member ms (?z, None)) = Some UnmarshalTypeError"
    by (rule ViaCEPResponse_fold_bool[OF assms(2,3)]) simp
  then obtain r' where "fold ViaCEPResponse_member ms (?z, None) = (r', Some UnmarshalTypeError)"
    by (cases "fold ViaCEPResponse_member ms (?z, None)") simp
  then show ?thesis
    using assms(1) by (simp add: Unmarshal_ViaCEPResponse_def result_def)
qed

text \<open>
  C10. \<open>lookupCEP\<close> reports not-found exactly when the request could be sent, the body
  was read and decodes into \<open>ViaCEPResponse\<close>, and either field \<open>erro\<close> is the string
  \<open>true\<close> or field \<open>localidade\<close> is empty. Field \<open>erro\<close> is a string: a body that is a
  JSON object with a member \<open>erro\<close> holding a JSON boolean does not decode
  (\<open>UnmarshalTypeError\<close>), so \<open>lookupCEP\<close> returns an error and not not-found, and the
  handler answers 500 with the message \<open>internal error\<close>, not 404.
\<close>

theorem notfound_classification:
  \<open>(fst (lookupCEP e cep) = Inr None \<longleftrightarrow>
      ParseURL e (viaCEPURL cep)
      \<and> (\<exists>resp v. Do e (viaCEPRequest cep) = Inr resp \<and> ReadErr resp = None
             \<and> Unmarshal_ViaCEPResponse (RespBody resp) = Inr v
             \<and> (Erro v = ''true'' \<or> Localidade v = [])))
   \<and> (\<forall>resp ms k b.
         ParseURL e (viaCEPURL cep) \<and> Do e (viaCEPRequest cep) = Inr resp
         \<and> checkValid (RespBody resp) = Some (JObject ms) \<and> (k, JBool b) \<in> set ms
         \<and> foldName k = ''ERRO''
       \<longrightarrow> Unmarshal_ViaCEPResponse (RespBody resp) = Inl UnmarshalTypeError
           \<and> (\<exists>err. fst (lookupCEP e cep) = Inl err)
           \<and> fst (lookupCEP e cep) \<noteq> Inr None)
   \<and> (\<forall>(r::Request) req. Method r = ''POST'' \<and> Decode_CEPRequest (Body r) = Inr req
         \<and> validateCEP (CEP req)
         \<and> CEP req = cep \<and> (\<exists>err. fst (lookupCEP e cep) = Inl err)
       \<longrightarrow> fst (handleWeather fl e r) =
             \<lparr>w_status = Some 500, w_header = [(''Content-Type'', ''application/json'')],
              w_body = ''{"message":"internal error"}'' @ [CHR 0x0A]\<rparr>)\<close>
proof (intro conjI allI impI)
  show "fst (lookupCEP e cep) = Inr None \<longleftrightarrow>
      ParseURL e (viaCEPURL cep)
      \<and> (\<exists>resp v. Do e (viaCEPRequest cep) = Inr resp \<and> ReadErr resp = None
             \<and> Unmarshal_ViaCEPResponse (RespBody resp) = Inr v
             \<and> (Erro v = ''true'' \<or> Localidade v = []))"
    by (auto simp: lookupCEP_eq split: sum.splits option.splits)
next
  fix resp ms k b
  assume a: "ParseURL e (viaCEPURL cep) \<and> Do e (viaCEPRequest cep) = Inr resp
         \<and> checkValid (RespBody resp) = Some (JObject ms) \<and> (k, JBool b) \<in> set ms
         \<and> foldName k = ''ERRO''"
  then show u: "Unmarshal_ViaCEPResponse (RespBody resp) = Inl UnmarshalTypeError"
    by (auto intro: Unmarshal_ViaCEPResponse_bool)
  from a u show "\<exists>err. fst (lookupCEP e cep) = Inl err"
    by (auto simp: lookupCEP_eq split: option.splits)
  then show "fst (lookupCEP e cep) \<noteq> Inr None" by auto
next
  fix r :: Request and req
  assume a: "Method r = ''POST'' \<and> Decode_CEPRequest (Body r) = Inr req \<and> validateCEP (CEP req)
         \<and> CEP req = cep \<and> (\<exists>err. fst (lookupCEP e cep) = Inl err)"
  then have acc: "Method r = ''POST''" "Decode_CEPRequest (Body r) = Inr req" "validateCEP (CEP req)"
    by auto
  from a show \<open>fst (handleWeather fl e r) =
             \<lparr>w_status = Some 500, w_header = [(''Content-Type'', ''application/json'')],
              w_body = ''{"message":"internal error"}'' @ [CHR 0x0A]\<rparr>\<close>
    by (cases "lookupCEP e cep")
       (auto simp add: handleWeather_accepted[OF acc] errorResponse_def errorBody_def)
qed

text \<open>
  C5. In the Orchestration handler, once the lookup has found a city, every failure of
  \<open>getWeather\<close> gives status 500 with the message \<open>failed to get weather\<close>: the
  credential \<open>WEATHER_API_KEY\<close> is absent, the call fails in the transport, the provider
  answers with a status other than 200, or the body does not decode.
\<close>

theorem weather_failure_500:
  assumes "Method r = ''POST''" and "Decode_CEPRequest (Body r) = Inr req"
    and "validateCEP (CEP req)" and "fst (lookupCEP e (CEP req)) = Inr (Some v)"
  shows \<open>(\<forall>err. fst (getWeather fl e (Localidade v)) = Inl err
             \<or> Getenv e ''WEATHER_API_KEY'' = []
             \<or> Do e (weatherRequest (Getenv e ''WEATHER_API_KEY'') (Localidade v)) = Inl err
             \<or> (\<exists>resp. Do e (weatherRequest (Getenv e ''WEATHER_API_KEY'') (Localidade v)) = Inr resp
                   \<and> (StatusCode resp \<noteq> 200
                       \<or> Unmarshal_WeatherAPIResponse fl (RespBody resp) = Inl err))
           \<longrightarrow> fst (handleWeather fl e r) =
                 \<lparr>w_status = Some 500, w_header = [(''Content-Type'', ''application/json'')],
                  w_body = ''{"message":"failed to get weather"}'' @ [CHR 0x0A]\<rparr>)\<close>
proof (intro allI impI)
  fix err
  assume a: "fst (getWeather fl e (Localidade v)) = Inl err
             \<or> Getenv e ''WEATHER_API_KEY'' = []
             \<or> Do e (weatherRequest (Getenv e ''WEATHER_API_KEY'') (Localidade v)) = Inl err
             \<or> (\<exists>resp. Do e (weatherRequest (Getenv e ''WEATHER_API_KEY'') (Localidade v)) = Inr resp
                   \<and> (StatusCode resp \<noteq> 200
                       \<or> Unmarshal_WeatherAPIResponse fl (RespBody resp) = Inl err))"
  have "\<exists>err'. fst (getWeather fl e (Localidade v)) = Inl err'"
  proof -
    consider (fails) "fst (getWeather fl e (Localidade v)) = Inl err"
      | (credential) "Getenv e ''WEATHER_API_KEY'' = []"
      | (transport) "Do e (weatherRequest (Getenv e ''WEATHER_API_KEY'') (Localidade v)) = Inl err"
      | (response) resp where
          "Do e (weatherRequest (Getenv e ''WEATHER_API_KEY'') (Localidade v)) = Inr resp"
          "StatusCode resp \<noteq> 200 \<or> Unmarshal_WeatherAPIResponse fl (RespBody resp) = Inl err"
      using a by blast
    then show ?thesis
    proof cases
      case fails
      then show ?thesis by blast
    next
      case credential
      then show ?thesis by (simp add: getWeather_eq)
    next
      case transport
      then show ?thesis by (simp add: getWeather_eq Let_def)
    next
      case response
      then show ?thesis by (auto simp add: getWeather_eq Let_def split: option.splits)
    qed
  qed
  then show \<open>fst (handleWeather fl e r) =
                 \<lparr>w_status = Some 500, w_header = [(''Content-Type'', ''application/json'')],
                  w_body = ''{"message":"failed to get weather"}'' @ [CHR 0x0A]\<rparr>\<close>
    using assms(4)
    by (cases "lookupCEP e (CEP req)"; cases "getWeather fl e (Localidade v)")
       (auto simp add: handleWeather_accepted[OF assms(1-3)] errorResponse_def errorBody_def)
qed

lemma viaCEPRequest_not_weather: "\<not> isWeatherCall (viaCEPRequest cep)"
  by (simp add: isWeatherCall_def viaCEPRequest_def viaCEPURL_def)

lemma weatherRequest_weather: "isWeatherCall (weatherRequest apiKey city)"
  by (simp add: isWeatherCall_def weatherRequest_def weatherURL_def)

lemma lookupCEP_sent: "snd (lookupCEP e cep) = [] \<or> snd (lookupCEP e cep) = [viaCEPRequest cep]"
  by (auto simp: lookupCEP_eq split: sum.splits option.splits)

lemma getWeather_sent:
  "snd (getWeather fl e city) = []
   \<or> snd (getWeather fl e city) = [weatherRequest (Getenv e ''WEATHER_API_KEY'') city]"
  by (auto simp: getWeather_eq Let_def split: sum.splits option.splits)

lemma lookupCEP_found:
  assumes "fst (lookupCEP e cep) = Inr (Some v)"
  shows "\<exists>resp. Do e (viaCEPRequest cep) = Inr resp \<and> ReadErr resp = None
           \<and> Unmarshal_ViaCEPResponse (RespBody resp) = Inr v \<and> Localidade v \<noteq> []
           \<and> Erro v \<noteq> ''true'' \<and> snd (lookupCEP e cep) = [viaCEPRequest cep]"
  using assms by (auto simp: lookupCEP_eq split: sum.splits option.splits if_splits)

lemma weather_call_after_lookup:
  "(\<forall>q\<in>set (snd (handleWeather fl e r)). isWeatherCall q \<longrightarrow>
      (\<exists>req resp v. Method r = ''POST'' \<and> Decode_CEPRequest (Body r) = Inr req
          \<and> validateCEP (CEP req)
          \<and> Do e (viaCEPRequest (CEP req)) = Inr resp \<and> ReadErr resp = None
          \<and> Unmarshal_ViaCEPResponse (RespBody resp) = Inr v
          \<and> Localidade v \<noteq> [] \<and> Erro v \<noteq> ''true''
          \<and> fst (lookupCEP e (CEP req)) = Inr (Some v)
          \<and> q = weatherRequest (Getenv e ''WEATHER_API_KEY'') (Localidade v)
          \<and> snd (handleWeather fl e r) = [viaCEPRequest (CEP req), q]))
   \<and> (\<forall>req. Decode_CEPRequest (Body r) = Inr req
          \<and> (fst (lookupCEP e (CEP req)) = Inr None \<or> (\<exists>err. fst (lookupCEP e (CEP req)) = Inl err))
        \<longrightarrow> \<not> list_ex isWeatherCall (snd (handleWeather fl e r)))"
proof -
  have main: "\<exists>req resp v. Method r = ''POST'' \<and> Decode_CEPRequest (Body r) = Inr req
          \<and> validateCEP (CEP req)
          \<and> Do e (viaCEPRequest (CEP req)) = Inr resp \<and> ReadErr resp = None
          \<and> Unmarshal_ViaCEPResponse (RespBody resp) = Inr v
          \<and> Localidade v \<noteq> [] \<and> Erro v \<noteq> ''true''
          \<and> fst (lookupCEP e (CEP req)) = Inr (Some v)
          \<and> q = weatherRequest (Getenv e ''WEATHER_API_KEY'') (Localidade v)
          \<and> snd (handleWeather fl e r) = [viaCEPRequest (CEP req), q]"
    if q: "q \<in> set (snd (handleWeather fl e r))" and w: "isWeatherCall q" for q
  proof (cases "Method r = ''POST''")
    case False
    then show ?thesis using q by (simp add: handleWeather_method)
  next
    case post: True
    show ?thesis
    proof (cases "Decode_CEPRequest (Body r)")
      case (Inl err)
      then show ?thesis using q post by (simp add: handleWeather_rejected)
    next
      case (Inr req)
      show ?thesis
      proof (cases "validateCEP (CEP req)")
        case False
        then show ?thesis using q post Inr by (simp add: handleWeather_rejected)
      next
        case valid: True
        note acc = handleWeather_accepted[OF post Inr valid, of fl e]
        obtain res sent where l: "lookupCEP e (CEP req) = (res, sent)"
          by (cases "lookupCEP e (CEP req)")
        have sent: "sent = [] \<or> sent = [viaCEPRequest (CEP req)]"
          using lookupCEP_sent[of e "CEP req"] l by simp
        show ?thesis
        proof (cases res)
          case (Inl err)
          then show ?thesis using q w l sent acc viaCEPRequest_not_weather by auto
        next
          case found: (Inr opt)
          show ?thesis
          proof (cases opt)
            case None
            then show ?thesis using q w l sent acc found viaCEPRequest_not_weather by auto
          next
            case (Some v)
            obtain res' sent' where g: "getWeather fl e (Localidade v) = (res', sent')"
              by (cases "getWeather fl e (Localidade v)")
            have sent': "sent' = [] \<or> sent' = [weatherRequest (Getenv e ''WEATHER_API_KEY'') (Localidade v)]"
              using getWeather_sent[of fl e "Localidade v"] g by simp
            have f: "fst (lookupCEP e (CEP req)) = Inr (Some v)"
              using l found Some by simp
            from lookupCEP_found[OF f] obtain resp where
              resp: "Do e (viaCEPRequest (CEP req)) = Inr resp" "ReadErr resp = None"
                "Unmarshal_ViaCEPResponse (RespBody resp) = Inr v" "Localidade v \<noteq> []"
                "Erro v \<noteq> ''true''" "snd (lookupCEP e (CEP req)) = [viaCEPRequest (CEP req)]"
              by blast
            have s: "snd (handleWeather fl e r) = sent @ sent'"
              using acc l found Some g by (cases res') simp_all
            have "sent = [viaCEPRequest (CEP req)]" using resp(6) l by simp
            moreover have "q \<in> set (sent @ sent')" using q s by simp
            ultimately have "sent' = [q] \<and> q = weatherRequest (Getenv e ''WEATHER_API_KEY'') (Localidade v)"
              using sent' w viaCEPRequest_not_weather by auto
            then show ?thesis
              using post Inr valid resp f s \<open>sent = [viaCEPRequest (CEP req)]\<close> by auto
          qed
        qed
      qed
    qed
  qed
  have none: "\<not> list_ex isWeatherCall (snd (handleWeather fl e r))"
    if d: "Decode_CEPRequest (Body r) = Inr req"
      and l: "fst (lookupCEP e (CEP req)) = Inr None \<or> (\<exists>err. fst (lookupCEP e (CEP req)) = Inl err)"
    for req
  proof
    assume "list_ex isWeatherCall (snd (handleWeather fl e r))"
    then obtain q where "q \<in> set (snd (handleWeather fl e r))" "isWeatherCall q"
      by (auto simp: list_ex_iff)
    from main[OF this] d l show False by auto
  qed
  show ?thesis using main none by blast
qed

subsection \<open>The query escape\<close>

text \<open>
  \<open>QueryEscape\<close> writes each byte as a text that is no prefix of the text of another
  byte, so the escaped text determines the string.
\<close>

lemma QueryEscape_Cons: "QueryEscape (c # s) = escapeChar c @ QueryEscape s"
  by (simp add: QueryEscape_def escapeChar_def)

lemma QueryEscape_Nil: "QueryEscape [] = []"
  by (simp add: QueryEscape_def)

lemma hexdigit_inj:
  assumes "hexdigit ''0123456789ABCDEF'' m = hexdigit ''0123456789ABCDEF'' n"
  shows "m mod 16 = n mod 16"
proof -
  have d: "distinct ''0123456789ABCDEF''" by simp
  have l: "length ''0123456789ABCDEF'' = 16" by simp
  have "m mod 16 < length ''0123456789ABCDEF''" "n mod 16 < length ''0123456789ABCDEF''"
    unfolding l by simp_all
  with assms d show ?thesis
    unfolding hexdigit_def by (simp only: nth_eq_iff_index_eq)
qed

lemma byte_inj: "byte a = byte b \<Longrightarrow> a = b"
  by (simp add: byte_def)

lemma byte_split: "byte c = 16 * (byte c div 16) + byte c mod 16"
  by simp

lemma byte_div_less: "byte c div 16 < 16"
proof -
  have "byte c < 256" unfolding byte_def by (rule nat_of_char_less_256)
  then show ?thesis by simp
qed

lemma escapeChar_prefix_free:
  assumes "escapeChar a @ x = escapeChar b @ y"
  shows "a = b \<and> x = y"
proof -
  have plus: "\<not> shouldEscape c \<Longrightarrow> c \<noteq> CHR ''+'' \<and> c \<noteq> CHR ''%''" for c
    by (auto simp: shouldEscape_def isDigit_def byte_def)
  consider (sp) "a = CHR '' ''" | (esc) "a \<noteq> CHR '' ''" "shouldEscape a"
    | (plain) "a \<noteq> CHR '' ''" "\<not> shouldEscape a" by blast
  then show ?thesis
  proof cases
    case sp
    with assms plus[of b] show ?thesis
      by (auto simp: escapeChar_def split: if_splits)
  next
    case esc
    with assms plus[of b] have b: "b \<noteq> CHR '' ''" "shouldEscape b"
      by (auto simp: escapeChar_def split: if_splits)
    with assms esc have h: "hexdigit ''0123456789ABCDEF'' (byte a div 16) = hexdigit ''0123456789ABCDEF'' (byte b div 16)"
      "hexdigit ''0123456789ABCDEF'' (byte a) = hexdigit ''0123456789ABCDEF'' (byte b)" "x = y"
      by (simp_all add: escapeChar_def)
    from hexdigit_inj[OF h(1)] byte_div_less[of a] byte_div_less[of b]
    have hi: "byte a div 16 = byte b div 16" by simp
    from hexdigit_inj[OF h(2)] have lo: "byte a mod 16 = byte b mod 16" .
    from hi lo byte_split[of a] byte_split[of b] have "byte a = byte b" by simp
    with h(3) show ?thesis by (simp add: byte_inj)
  next
    case plain
    with assms plus[of a] show ?thesis
      by (auto simp: escapeChar_def split: if_splits)
  qed
qed

lemma escapeChar_nonempty: "escapeChar c \<noteq> []"
  by (simp add: escapeChar_def)

lemma QueryEscape_inj: "QueryEscape a = QueryEscape b \<Longrightarrow> a = b"
proof (induction a arbitrary: b)
  case Nil
  then show ?case
    by (cases b) (simp_all add: QueryEscape_Nil QueryEscape_Cons escapeChar_nonempty)
next
  case (Cons c a)
  show ?case
  proof (cases b)
    case Nil
    with Cons.prems show ?thesis
      by (simp add: QueryEscape_Nil QueryEscape_Cons escapeChar_nonempty)
  next
    case b: (Cons c' b')
    from Cons.prems have "escapeChar c @ QueryEscape a = escapeChar c' @ QueryEscape b'"
      by (simp add: b QueryEscape_Cons)
    from escapeChar_prefix_free[OF this] Cons.IH[of b'] b show ?thesis by simp
  qed
qed

text \<open>
  C8. For every request to the Orchestration handler, a request to the Weather
  collaborator is sent only after the Address-Lookup call has returned a response that
  decodes into a record with a locality (and no not-found flag). It is then the second of
  exactly two requests, after the lookup, and it is the GET request whose URL carries the
  credential and, in \<open>q=\<close>, the query escape of exactly that locality: no other city has
  this URL. When the lookup fails or finds nothing, no request goes to the Weather
  collaborator.
\<close>

theorem weather_only_after_lookup:
  \<open>(\<forall>q\<in>set (snd (handleWeather fl e r)). isWeatherCall q \<longrightarrow>
      (\<exists>req resp v. Method r = ''POST'' \<and> Decode_CEPRequest (Body r) = Inr req
          \<and> validateCEP (CEP req)
          \<and> Do e \<lparr>Method = ''GET'', URL = ''https://viacep.com.br/ws/'' @ CEP req @ ''/json/'',
                    Header = [], Body = []\<rparr> = Inr resp
          \<and> ReadErr resp = None
          \<and> Unmarshal_ViaCEPResponse (RespBody resp) = Inr v
          \<and> Localidade v \<noteq> [] \<and> Erro v \<noteq> ''true''
          \<and> fst (lookupCEP e (CEP req)) = Inr (Some v)
          \<and> q = \<lparr>Method = ''GET'',
                   URL = ''https://api.weatherapi.com/v1/current.json?key=''
                         @ Getenv e ''WEATHER_API_KEY'' @ ''&q='' @ QueryEscape (Localidade v)
                         @ ''&aqi=no'',
                   Header = [], Body = []\<rparr>
          \<and> (\<forall>city. URL q = ''https://api.weatherapi.com/v1/current.json?key=''
                         @ Getenv e ''WEATHER_API_KEY'' @ ''&q='' @ QueryEscape city @ ''&aqi=no''
                 \<longrightarrow> city = Localidade v)
          \<and> snd (handleWeather fl e r) =
                [\<lparr>Method = ''GET'', URL = ''https://viacep.com.br/ws/'' @ CEP req @ ''/json/'',
                   Header = [], Body = []\<rparr>, q]))
   \<and> (\<forall>req. Decode_CEPRequest (Body r) = Inr req
          \<and> (fst (lookupCEP e (CEP req)) = Inr None \<or> (\<exists>err. fst (lookupCEP e (CEP req)) = Inl err))
        \<longrightarrow> \<not> list_ex isWeatherCall (snd (handleWeather fl e r)))\<close>
proof (intro conjI ballI impI)
  fix q
  assume "q \<in> set (snd (handleWeather fl e r))" and "isWeatherCall q"
  with weather_call_after_lookup[of fl e r, THEN conjunct1] obtain req resp v where
    f: "Method r = ''POST''" "Decode_CEPRequest (Body r) = Inr req" "validateCEP (CEP req)"
      "Do e (viaCEPRequest (CEP req)) = Inr resp" "ReadErr resp = None"
      "Unmarshal_ViaCEPResponse (RespBody resp) = Inr v" "Localidade v \<noteq> []"
      "Erro v \<noteq> ''true''" "fst (lookupCEP e (CEP req)) = Inr (Some v)"
      "q = weatherRequest (Getenv e ''WEATHER_API_KEY'') (Localidade v)"
      "snd (handleWeather fl e r) = [viaCEPRequest (CEP req), q]"
    by blast
  have q': \<open>q = \<lparr>Method = ''GET'',
                   URL = ''https://api.weatherapi.com/v1/current.json?key=''
                         @ Getenv e ''WEATHER_API_KEY'' @ ''&q='' @ QueryEscape (Localidade v)
                         @ ''&aqi=no'',
                   Header = [], Body = []\<rparr>\<close>
    unfolding f(10) weatherRequest_def weatherURL_def by simp
  have l': \<open>viaCEPRequest (CEP req) =
      \<lparr>Method = ''GET'', URL = ''https://viacep.com.br/ws/'' @ CEP req @ ''/json/'',
       Header = [], Body = []\<rparr>\<close>
    unfolding viaCEPRequest_def viaCEPURL_def by simp
  have only: \<open>\<forall>city. URL q = ''https://api.weatherapi.com/v1/current.json?key=''
                         @ Getenv e ''WEATHER_API_KEY'' @ ''&q='' @ QueryEscape city @ ''&aqi=no''
                 \<longrightarrow> city = Localidade v\<close>
  proof (intro allI impI)
    fix city
    assume \<open>URL q = ''https://api.weatherapi.com/v1/current.json?key=''
                  @ Getenv e ''WEATHER_API_KEY'' @ ''&q='' @ QueryEscape city @ ''&aqi=no''\<close>
    then have "QueryEscape (Localidade v) = QueryEscape city"
      unfolding q' by simp
    then show "city = Localidade v" by (rule QueryEscape_inj[symmetric])
  qed
  note d = f(4)[unfolded l']
  note s = f(11)[unfolded l']
  from f(1-3) d f(5-9) q' only s
  show \<open>\<exists>req resp v. Method r = ''POST'' \<and> Decode_CEPRequest (Body r) = Inr req
          \<and> validateCEP (CEP req)
          \<and> Do e \<lparr>Method = ''GET'', URL = ''https://viacep.com.br/ws/'' @ CEP req @ ''/json/'',
                    Header = [], Body = []\<rparr> = Inr resp
          \<and> ReadErr resp = None
          \<and> Unmarshal_ViaCEPResponse (RespBody resp) = Inr v
          \<and> Localidade v \<noteq> [] \<and> Erro v \<noteq> ''true''
          \<and> fst (lookupCEP e (CEP req)) = Inr (Some v)
          \<and> q = \<lparr>Method = ''GET'',
                   URL = ''https://api.weatherapi.com/v1/current.json?key=''
                         @ Getenv e ''WEATHER_API_KEY'' @ ''&q='' @ QueryEscape (Localidade v)
                         @ ''&aqi=no'',
                   Header = [], Body = []\<rparr>
          \<and> (\<forall>city. URL q = ''https://api.weatherapi.com/v1/current.json?key=''
                         @ Getenv e ''WEATHER_API_KEY'' @ ''&q='' @ QueryEscape city @ ''&aqi=no''
                 \<longrightarrow> city = Localidade v)
          \<and> snd (handleWeather fl e r) =
                [\<lparr>Method = ''GET'', URL = ''https://viacep.com.br/ws/'' @ CEP req @ ''/json/'',
                   Header = [], Body = []\<rparr>, q]\<close>
    by (intro exI[of _ req] exI[of _ resp] exI[of _ v] conjI)
next
  show "\<forall>req. Decode_CEPRequest (Body r) = Inr req
          \<and> (fst (lookupCEP e (CEP req)) = Inr None \<or> (\<exists>err. fst (lookupCEP e (CEP req)) = Inl err))
        \<longrightarrow> \<not> list_ex isWeatherCall (snd (handleWeather fl e r))"
    using weather_call_after_lookup[of fl e r, THEN conjunct2] .
qed


subsection \<open>The Edge service in front of the Orchestration service\<close>

lemma unquote_digits:
  "\<forall>c\<in>set ds. isDigit c \<Longrightarrow> unquote (ds @ CHR 0x22 # rest) = Some (ds, rest)"
proof (induction ds)
  case Nil
  then show ?case by simp
next
  case (Cons c ds)
  then have "isDigit c" by simp
  then have "c \<noteq> CHR 0x22" "c \<noteq> CHR 0x5C" "\<not> byte c < 32" "byte c < 128"
    by (auto simp: isDigit_def byte_def)
  then show ?case using Cons by (simp add: emit_def)
qed

lemma skipSpace_nonspace: "\<not> isSpace c \<Longrightarrow> skipSpace (c # cs) = c # cs"
  by (simp add: skipSpace_def)

lemma parseValue_forwarded:
  assumes "\<forall>c\<in>set ds. isDigit c"
  shows \<open>parseValue 0 (''{"cep":"'' @ ds @ ''"}'') = Some (JObject [(''cep'', JString ds)], [])\<close>
proof -
  have v: \<open>parseValue (Suc 0) (CHR 0x22 # ds @ ''"}'') = Some (JString ds, ''}'')\<close>
    using unquote_digits[OF assms, of "''}''"]
    by (subst parseValue.simps) (simp add: skipSpace_nonspace isSpace_def)
  have m: \<open>parseMembers (Suc 0) (''"cep":"'' @ ds @ ''"}'') = Some ([(''cep'', JString ds)], [])\<close>
    using v
    by (subst parseMembers.simps) (simp add: skipSpace_nonspace isSpace_def emit_def byte_def)
  show ?thesis
    using m
    by (subst parseValue.simps) (simp add: skipSpace_nonspace isSpace_def maxNestingDepth_def)
qed

lemma foldName_cep: "foldName ''cep'' = ''CEP''"
  by code_simp

lemma Decode_forwarded:
  assumes "validateCEP (CEP req)"
  shows "Decode_CEPRequest (Marshal_CEPRequest req) = Inr req"
proof -
  have d: "\<forall>c\<in>set (CEP req). isDigit c" using assms by (simp add: validateCEP_chars)
  show ?thesis
    unfolding Marshal_CEPRequest_valid[OF assms]
    using parseValue_forwarded[OF d]
    by (simp add: Decode_CEPRequest_def skipSpace_nonspace isSpace_def CEPRequest_member_def
        foldName_cep result_def saveError_def)
qed

lemma handleWeather_status_422:
  "w_status (fst (handleWeather fl e r)) = Some 422 \<longleftrightarrow> Method r = ''POST'' \<and> rejected r"
proof (cases "Method r = ''POST''")
  case False
  then show ?thesis by (simp add: handleWeather_method)
next
  case post: True
  show ?thesis
  proof (cases "rejected r")
    case True
    then have "handleWeather fl e r = (errorResponse 422 ''invalid zipcode'', [])"
      using post by (intro handleWeather_rejected) (auto simp: rejected_def split: sum.splits)
    then show ?thesis using post True by (simp add: errorResponse_def)
  next
    case False
    then obtain req where acc: "Decode_CEPRequest (Body r) = Inr req" "validateCEP (CEP req)"
      by (auto simp: rejected_def split: sum.splits)
    have "w_status (fst (handleWeather fl e r)) \<noteq> Some 422"
      unfolding handleWeather_accepted[OF post acc]
      by (auto simp: errorResponse_def okResponse_status split: prod.splits sum.splits option.splits)
    then show ?thesis using False by simp
  qed
qed

lemma handleCEP_rejected_iff:
  assumes "Method r = ''POST''" and "rejected r"
  shows "handleCEP e r = (errorResponse 422 ''invalid zipcode'', [])"
  using assms by (intro handleCEP_rejected) (auto simp: rejected_def split: sum.splits)

lemma handleWeather_rejected_iff:
  assumes "Method r = ''POST''" and "rejected r"
  shows "handleWeather fl e r = (errorResponse 422 ''invalid zipcode'', [])"
  using assms by (intro handleWeather_rejected) (auto simp: rejected_def split: sum.splits)

lemma received_status: "w_status w = Some code \<Longrightarrow> StatusCode (received w) = code"
  by (simp add: received_def)

text \<open>
  C6. A POST request is rejected when its body does not decode into \<open>CEPRequest\<close> or the
  decoded postal code fails the validator. Both handlers answer a rejected request with
  status 422 and the body \<open>{"message":"invalid zipcode"}\<close> (ended by the line feed of
  \<open>Encode\<close>), the same bytes for both causes and for both handlers. The Orchestration
  handler answers 422 exactly for the rejected POST requests. So does the Edge handler in
  the deployed system, where its upstream call either fails or is answered by the
  Orchestration handler: the request it forwards is never rejected there. (Taken alone,
  the Edge handler relays whatever status its upstream sends.)
\<close>

theorem invalid_zipcode_422:
  \<open>(Method r = ''POST'' \<and> rejected r \<longrightarrow>
      fst (handleCEP eA r) =
        \<lparr>w_status = Some 422, w_header = [(''Content-Type'', ''application/json'')],
         w_body = ''{"message":"invalid zipcode"}'' @ [CHR 0x0A]\<rparr>
      \<and> fst (handleWeather fl eB r) = fst (handleCEP eA r))
   \<and> (\<forall>r1 r2 err req. Method r1 = ''POST'' \<and> Decode_CEPRequest (Body r1) = Inl err
         \<and> Method r2 = ''POST'' \<and> Decode_CEPRequest (Body r2) = Inr req \<and> \<not> validateCEP (CEP req)
       \<longrightarrow> fst (handleCEP eA r1) = fst (handleCEP eA r2)
           \<and> fst (handleWeather fl eB r1) = fst (handleWeather fl eB r2))
   \<and> (w_status (fst (handleWeather fl eB r)) = Some 422 \<longleftrightarrow> Method r = ''POST'' \<and> rejected r)
   \<and> ((\<forall>q. (\<exists>err. Do eA q = Inl err) \<or> Do eA q = Inr (received (fst (handleWeather fl eB q))))
        \<longrightarrow> (w_status (fst (handleCEP eA r)) = Some 422 \<longleftrightarrow> Method r = ''POST'' \<and> rejected r))\<close>
proof (intro conjI impI)
  assume a: "Method r = ''POST'' \<and> rejected r"
  then show \<open>fst (handleCEP eA r) =
        \<lparr>w_status = Some 422, w_header = [(''Content-Type'', ''application/json'')],
         w_body = ''{"message":"invalid zipcode"}'' @ [CHR 0x0A]\<rparr>\<close>
    by (simp add: handleCEP_rejected_iff errorResponse_def errorBody_def)
  from a show "fst (handleWeather fl eB r) = fst (handleCEP eA r)"
    by (simp add: handleCEP_rejected_iff handleWeather_rejected_iff)
next
  show "\<forall>r1 r2 err req. Method r1 = ''POST'' \<and> Decode_CEPRequest (Body r1) = Inl err
         \<and> Method r2 = ''POST'' \<and> Decode_CEPRequest (Body r2) = Inr req \<and> \<not> validateCEP (CEP req)
       \<longrightarrow> fst (handleCEP eA r1) = fst (handleCEP eA r2)
           \<and> fst (handleWeather fl eB r1) = fst (handleWeather fl eB r2)"
    by (auto simp: handleCEP_rejected handleWeather_rejected)
next
  show "w_status (fst (handleWeather fl eB r)) = Some 422 \<longleftrightarrow> Method r = ''POST'' \<and> rejected r"
    by (rule handleWeather_status_422)
next
  assume up: "\<forall>q. (\<exists>err. Do eA q = Inl err) \<or> Do eA q = Inr (received (fst (handleWeather fl eB q)))"
  show "w_status (fst (handleCEP eA r)) = Some 422 \<longleftrightarrow> Method r = ''POST'' \<and> rejected r"
  proof (cases "Method r = ''POST''")
    case False
    then show ?thesis by (simp add: handleCEP_method)
  next
    case post: True
    show ?thesis
    proof (cases "rejected r")
      case True
      then show ?thesis using post by (simp add: handleCEP_rejected_iff errorResponse_def)
    next
      case False
      then obtain req where acc: "Decode_CEPRequest (Body r) = Inr req" "validateCEP (CEP req)"
        by (auto simp: rejected_def split: sum.splits)
      let ?q = "forwarded eA req"
      have nr: "\<not> rejected ?q"
        using acc(2) by (simp add: rejected_def forwarded_def Decode_forwarded)
      have "w_status (fst (handleWeather fl eB ?q)) \<noteq> Some 422"
        using nr by (simp add: handleWeather_status_422)
      then have up': "StatusCode (received (fst (handleWeather fl eB ?q))) \<noteq> 422"
        by (auto simp: received_def split: option.splits)
      have "w_status (fst (handleCEP eA r)) \<noteq> Some 422"
        using up[rule_format, of ?q] up'
        unfolding handleCEP_accepted[OF post acc]
        by (auto simp: errorResponse_def split: sum.splits)
      then show ?thesis using False by simp
    qed
  qed
qed


subsection \<open>The properties on sample inputs\<close>

lemma sample_decode:
  \<open>Decode_CEPRequest ''{"cep":"01310100"}'' = Inr \<lparr>CEP = ''01310100''\<rparr>\<close>
  \<open>Decode_CEPRequest ''{"cep":"00000000"}'' = Inr \<lparr>CEP = ''00000000''\<rparr>\<close>
  \<open>Decode_CEPRequest ''{ "id": [1, {"a": null}], "Cep" : "01310100", "x": true }} trailing''
     = Inr \<lparr>CEP = ''01310100''\<rparr>\<close>
  by code_simp+

lemma sample_valid: "validateCEP ''01310100''" "validateCEP ''00000000''"
  by code_simp+

lemma sample_unmarshal:
  \<open>Unmarshal_ViaCEPResponse ''{"erro": "true"}'' =
     Inr \<lparr>ViaCEP_CEP = [], Logradouro = [], Complemento = [], Bairro = [], Localidade = [],
          UF = [], Erro = ''true''\<rparr>\<close>
  \<open>Unmarshal_ViaCEPResponse ''{"cep": "01310-100", "localidade": "Sao Paulo", "uf": "SP"}'' =
     Inr \<lparr>ViaCEP_CEP = ''01310-100'', Logradouro = [], Complemento = [], Bairro = [],
          Localidade = ''Sao Paulo'', UF = ''SP'', Erro = []\<rparr>\<close>
  \<open>Unmarshal_ViaCEPResponse ''<html>'' = Inl SyntaxError\<close>
  \<open>checkValid ''{"erro": true}'' = Some (JObject [(''erro'', JBool True)])\<close>
  \<open>foldName ''erro'' = ''ERRO''\<close>
  by code_simp+

lemma orchEnv_lookup: "Do (orchEnv k l w) (viaCEPRequest cep) = l"
  by (simp add: orchEnv_def viaCEPRequest_not_weather)

lemma orchEnv_weather: "Do (orchEnv k l w) (weatherRequest k' city) = w"
  by (simp add: orchEnv_def weatherRequest_weather)

lemma orchEnv_simps:
  "ParseURL (orchEnv k l w) u" "Getenv (orchEnv k l w) ''WEATHER_API_KEY'' = k"
  by (simp_all add: orchEnv_def)

theorem validateCEP_iff_witness:
  "validateCEP ''01310100'' \<and> \<not> validateCEP ''123'' \<and> \<not> validateCEP ''0131010a''"
  using validateCEP_iff[of "''01310100''"] validateCEP_iff[of "''123''"]
    validateCEP_iff[of "''0131010a''"]
  by (simp add: isDigit_def byte_def)

theorem relay_verbatim_witness:
  \<open>w_status (fst (handleCEP
       (edgeEnv (Inr \<lparr>StatusCode = 404, RespBody = ''{"message":"can not find zipcode"}'',
                      ReadErr = None\<rparr>))
       (post ''{"cep":"00000000"}''))) = Some 404
   \<and> w_body (fst (handleCEP
       (edgeEnv (Inr \<lparr>StatusCode = 404, RespBody = ''{"message":"can not find zipcode"}'',
                      ReadErr = None\<rparr>))
       (post ''{"cep":"00000000"}''))) = ''{"message":"can not find zipcode"}''\<close>
  using relay_verbatim[of \<open>post ''{"cep":"00000000"}''\<close> \<open>\<lparr>CEP = ''00000000''\<rparr>\<close>
      \<open>edgeEnv (Inr \<lparr>StatusCode = 404, RespBody = ''{"message":"can not find zipcode"}'',
                      ReadErr = None\<rparr>)\<close>
      \<open>\<lparr>StatusCode = 404, RespBody = ''{"message":"can not find zipcode"}'', ReadErr = None\<rparr>\<close>]
  by (simp add: post_def edgeEnv_def sample_decode sample_valid)

theorem unavailable_503_witness:
  \<open>fst (handleCEP (edgeEnv (Inl (TransportError ''connection refused'')))
          (post ''{"cep":"01310100"}'')) =
     \<lparr>w_status = Some 503, w_header = [(''Content-Type'', ''application/json'')],
      w_body = ''{"message":"service unavailable"}'' @ [CHR 0x0A]\<rparr>\<close>
  using unavailable_503[of \<open>post ''{"cep":"01310100"}''\<close> \<open>\<lparr>CEP = ''01310100''\<rparr>\<close>
      \<open>edgeEnv (Inl (TransportError ''connection refused''))\<close> \<open>TransportError ''connection refused''\<close>]
  by (simp add: post_def edgeEnv_def sample_decode sample_valid)

theorem forwarded_body_witness:
  \<open>snd (handleCEP (edgeEnv (ok []))
          (post ''{ "id": [1, {"a": null}], "Cep" : "01310100", "x": true }} trailing'')) =
     [\<lparr>Method = ''POST'', URL = ''http://service-b:8081/weather'',
       Header = [(''Content-Type'', ''application/json'')], Body = ''{"cep":"01310100"}''\<rparr>]\<close>
  using forwarded_body[of
      \<open>post ''{ "id": [1, {"a": null}], "Cep" : "01310100", "x": true }} trailing''\<close>
      \<open>\<lparr>CEP = ''01310100''\<rparr>\<close> \<open>edgeEnv (ok [])\<close>]
  by (simp add: post_def edgeEnv_def sample_decode sample_valid serviceBURL_def)

theorem notfound_404_error_500_witness:
  \<open>fst (handleWeather textFloat (orchEnv ''key'' (ok ''{"erro": "true"}'') (ok []))
          (post ''{"cep":"00000000"}'')) =
     \<lparr>w_status = Some 404, w_header = [(''Content-Type'', ''application/json'')],
      w_body = ''{"message":"can not find zipcode"}'' @ [CHR 0x0A]\<rparr>
   \<and> fst (handleWeather textFloat (orchEnv ''key'' (Inl (TransportError ''timeout'')) (ok []))
          (post ''{"cep":"00000000"}'')) =
     \<lparr>w_status = Some 500, w_header = [(''Content-Type'', ''application/json'')],
      w_body = ''{"message":"internal error"}'' @ [CHR 0x0A]\<rparr>
   \<and> fst (handleWeather textFloat (orchEnv ''key'' (ok ''<html>'') (ok []))
          (post ''{"cep":"00000000"}'')) =
     \<lparr>w_status = Some 500, w_header = [(''Content-Type'', ''application/json'')],
      w_body = ''{"message":"internal error"}'' @ [CHR 0x0A]\<rparr>\<close>
proof -
  have h: \<open>Method (post ''{"cep":"00000000"}'') = ''POST''\<close>
    \<open>Decode_CEPRequest (Body (post ''{"cep":"00000000"}'')) = Inr \<lparr>CEP = ''00000000''\<rparr>\<close>
    \<open>validateCEP (CEP \<lparr>CEP = ''00000000''\<rparr>)\<close>
    by (simp_all add: post_def sample_decode sample_valid)
  show ?thesis
    using
      notfound_404_error_500[OF h, of \<open>orchEnv ''key'' (ok ''{"erro": "true"}'') (ok [])\<close> textFloat,
        THEN conjunct1, rule_format,
        of \<open>\<lparr>StatusCode = 200, RespBody = ''{"erro": "true"}'', ReadErr = None\<rparr>\<close>
           \<open>\<lparr>ViaCEP_CEP = [], Logradouro = [], Complemento = [], Bairro = [], Localidade = [],
             UF = [], Erro = ''true''\<rparr>\<close>]
      notfound_404_error_500[OF h, of \<open>orchEnv ''key'' (Inl (TransportError ''timeout'')) (ok [])\<close>
        textFloat, THEN conjunct2, THEN conjunct1, rule_format, of \<open>TransportError ''timeout''\<close>]
      notfound_404_error_500[OF h, of \<open>orchEnv ''key'' (ok ''<html>'') (ok [])\<close>
        textFloat, THEN conjunct2, THEN conjunct2, THEN conjunct1, rule_format,
        of \<open>\<lparr>StatusCode = 200, RespBody = ''<html>'', ReadErr = None\<rparr>\<close> SyntaxError]
    by (simp add: orchEnv_lookup orchEnv_simps ok_def sample_unmarshal)
qed

lemma sample_lookup:
  \<open>lookupCEP (orchEnv k (ok ''{"cep": "01310-100", "localidade": "Sao Paulo", "uf": "SP"}'') w)
      ''01310100'' =
     (Inr (Some \<lparr>ViaCEP_CEP = ''01310-100'', Logradouro = [], Complemento = [], Bairro = [],
                 Localidade = ''Sao Paulo'', UF = ''SP'', Erro = []\<rparr>),
      [viaCEPRequest ''01310100''])\<close>
  \<open>lookupCEP (orchEnv k (ok ''{"erro": "true"}'') w) ''00000000'' =
     (Inr None, [viaCEPRequest ''00000000''])\<close>
  by (simp_all add: lookupCEP_eq orchEnv_lookup orchEnv_simps ok_def sample_unmarshal)

theorem weather_failure_500_witness:
  \<open>fst (handleWeather textFloat
          (orchEnv [] (ok ''{"cep": "01310-100", "localidade": "Sao Paulo", "uf": "SP"}'') (ok []))
          (post ''{"cep":"01310100"}'')) =
     \<lparr>w_status = Some 500, w_header = [(''Content-Type'', ''application/json'')],
      w_body = ''{"message":"failed to get weather"}'' @ [CHR 0x0A]\<rparr>
   \<and> fst (handleWeather textFloat
          (orchEnv ''key'' (ok ''{"cep": "01310-100", "localidade": "Sao Paulo", "uf": "SP"}'')
             (Inr \<lparr>StatusCode = 401, RespBody = ''{"error":{"code":2006}}'', ReadErr = None\<rparr>))
          (post ''{"cep":"01310100"}'')) =
     \<lparr>w_status = Some 500, w_header = [(''Content-Type'', ''application/json'')],
      w_body = ''{"message":"failed to get weather"}'' @ [CHR 0x0A]\<rparr>\<close>
proof -
  have h: \<open>Method (post ''{"cep":"01310100"}'') = ''POST''\<close>
    \<open>Decode_CEPRequest (Body (post ''{"cep":"01310100"}'')) = Inr \<lparr>CEP = ''01310100''\<rparr>\<close>
    \<open>validateCEP (CEP \<lparr>CEP = ''01310100''\<rparr>)\<close>
    by (simp_all add: post_def sample_decode sample_valid)
  have l: \<open>fst (lookupCEP
                  (orchEnv k (ok ''{"cep": "01310-100", "localidade": "Sao Paulo", "uf": "SP"}'') w)
                  (CEP \<lparr>CEP = ''01310100''\<rparr>)) =
             Inr (Some \<lparr>ViaCEP_CEP = ''01310-100'', Logradouro = [], Complemento = [], Bairro = [],
                         Localidade = ''Sao Paulo'', UF = ''SP'', Erro = []\<rparr>)\<close> for k w
    by (simp add: sample_lookup)
  show ?thesis
    using weather_failure_500[OF h l[of "[]" "ok []"], where fl = textFloat, rule_format,
        where err = APIKeyNotSet]
      weather_failure_500[OF h
        l[of "''key''"
          \<open>Inr \<lparr>StatusCode = 401, RespBody = ''{"error":{"code":2006}}'', ReadErr = None\<rparr>\<close>],
        where fl = textFloat, rule_format, where err = "WeatherStatus 401"]
    by (simp add: orchEnv_weather orchEnv_simps)
qed

theorem weather_only_after_lookup_witness:
  \<open>snd (handleWeather textFloat
          (orchEnv ''key'' (ok ''{"cep": "01310-100", "localidade": "Sao Paulo", "uf": "SP"}'')
             (ok ''{"current": {"temp_c": 25.0}}''))
          (post ''{"cep":"01310100"}'')) =
     [\<lparr>Method = ''GET'', URL = ''https://viacep.com.br/ws/01310100/json/'', Header = [],
       Body = []\<rparr>,
      \<lparr>Method = ''GET'',
       URL = ''https://api.weatherapi.com/v1/current.json?key=key&q=Sao+Paulo&aqi=no'',
       Header = [], Body = []\<rparr>]
   \<and> \<not> list_ex isWeatherCall
          (snd (handleWeather textFloat
                  (orchEnv ''key'' (ok ''{"erro": "true"}'') (ok ''{"current": {"temp_c": 25.0}}''))
                  (post ''{"cep":"00000000"}'')))\<close>
proof -
  let ?e = \<open>orchEnv ''key'' (ok ''{"cep": "01310-100", "localidade": "Sao Paulo", "uf": "SP"}'')
             (ok ''{"current": {"temp_c": 25.0}}'')\<close>
  let ?r = \<open>post ''{"cep":"01310100"}''\<close>
  let ?q = \<open>weatherRequest ''key'' ''Sao Paulo''\<close>
  let ?v = \<open>\<lparr>ViaCEP_CEP = ''01310-100'', Logradouro = [], Complemento = [], Bairro = [],
              Localidade = ''Sao Paulo'', UF = ''SP'', Erro = []\<rparr>\<close>
  have h: "Method ?r = ''POST''" "Decode_CEPRequest (Body ?r) = Inr \<lparr>CEP = ''01310100''\<rparr>"
    "validateCEP (CEP \<lparr>CEP = ''01310100''\<rparr>)"
    by (simp_all add: post_def sample_decode sample_valid)
  have u: \<open>Unmarshal_WeatherAPIResponse textFloat ''{"current": {"temp_c": 25.0}}''
             = Inr \<lparr>Current_TempC = ''25.0''\<rparr>\<close>
    by code_simp
  have g: "getWeather textFloat ?e ''Sao Paulo'' = (Inr ''25.0'', [?q])"
    by (simp add: getWeather_eq orchEnv_weather orchEnv_simps ok_def u)
  have esc: "QueryEscape ''Sao Paulo'' = ''Sao+Paulo''"
    by code_simp
  have "?q \<in> set (snd (handleWeather textFloat ?e ?r))"
    by (simp add: handleWeather_accepted[OF h] sample_lookup g)
  moreover have "isWeatherCall ?q" by (rule weatherRequest_weather)
  ultimately obtain req v where
    d: "Decode_CEPRequest (Body ?r) = Inr req"
    and l: "fst (lookupCEP ?e (CEP req)) = Inr (Some v)"
    and q: "?q = \<lparr>Method = ''GET'',
                   URL = ''https://api.weatherapi.com/v1/current.json?key=''
                         @ Getenv ?e ''WEATHER_API_KEY'' @ ''&q='' @ QueryEscape (Localidade v)
                         @ ''&aqi=no'',
                   Header = [], Body = []\<rparr>"
    and s: "snd (handleWeather textFloat ?e ?r) =
              [\<lparr>Method = ''GET'', URL = ''https://viacep.com.br/ws/'' @ CEP req @ ''/json/'',
                 Header = [], Body = []\<rparr>, ?q]"
    using weather_only_after_lookup[of textFloat ?e ?r, THEN conjunct1] by blast
  from d h(2) have req: "req = \<lparr>CEP = ''01310100''\<rparr>" by simp
  from l req have v: "v = ?v" by (simp add: sample_lookup)
  from q have "?q = \<lparr>Method = ''GET'',
       URL = ''https://api.weatherapi.com/v1/current.json?key=key&q=Sao+Paulo&aqi=no'',
       Header = [], Body = []\<rparr>"
    unfolding v by (simp add: orchEnv_simps esc)
  with s req have first: "snd (handleWeather textFloat ?e ?r) =
     [\<lparr>Method = ''GET'', URL = ''https://viacep.com.br/ws/01310100/json/'', Header = [],
       Body = []\<rparr>,
      \<lparr>Method = ''GET'',
       URL = ''https://api.weatherapi.com/v1/current.json?key=key&q=Sao+Paulo&aqi=no'',
       Header = [], Body = []\<rparr>]"
    by simp
  let ?e' = \<open>orchEnv ''key'' (ok ''{"erro": "true"}'') (ok ''{"current": {"temp_c": 25.0}}'')\<close>
  let ?r' = \<open>post ''{"cep":"00000000"}''\<close>
  have "Decode_CEPRequest (Body ?r') = Inr \<lparr>CEP = ''00000000''\<rparr>
        \<and> (fst (lookupCEP ?e' (CEP \<lparr>CEP = ''00000000''\<rparr>)) = Inr None
            \<or> (\<exists>err. fst (lookupCEP ?e' (CEP \<lparr>CEP = ''00000000''\<rparr>)) = Inl err))"
    by (simp add: post_def sample_decode sample_lookup)
  then have "\<not> list_ex isWeatherCall (snd (handleWeather textFloat ?e' ?r'))"
    using weather_only_after_lookup[of textFloat ?e' ?r', THEN conjunct2] by blast
  with first show ?thesis by simp
qed

theorem notfound_classification_witness:
  \<open>fst (lookupCEP (orchEnv ''key'' (ok ''{"erro": "true"}'') (ok [])) ''00000000'') = Inr None
   \<and> Unmarshal_ViaCEPResponse ''{"erro": true}'' = Inl UnmarshalTypeError
   \<and> fst (lookupCEP (orchEnv ''key'' (ok ''{"erro": true}'') (ok [])) ''00000000'') \<noteq> Inr None
   \<and> fst (handleWeather textFloat (orchEnv ''key'' (ok ''{"erro": true}'') (ok []))
            (post ''{"cep":"00000000"}'')) =
       \<lparr>w_status = Some 500, w_header = [(''Content-Type'', ''application/json'')],
        w_body = ''{"message":"internal error"}'' @ [CHR 0x0A]\<rparr>\<close>
proof -
  let ?e = \<open>orchEnv ''key'' (ok ''{"erro": true}'') (ok [])\<close>
  let ?resp = \<open>\<lparr>StatusCode = 200, RespBody = ''{"erro": true}'', ReadErr = None\<rparr>\<close>
  let ?r = \<open>post ''{"cep":"00000000"}''\<close>
  note T = notfound_classification[of _ "''00000000''" textFloat]
  have nf: \<open>fst (lookupCEP (orchEnv ''key'' (ok ''{"erro": "true"}'') (ok [])) ''00000000'') = Inr None\<close>
    using T[of \<open>orchEnv ''key'' (ok ''{"erro": "true"}'') (ok [])\<close>, THEN conjunct1]
    by (simp add: orchEnv_lookup orchEnv_simps ok_def sample_unmarshal)
  have b: "Unmarshal_ViaCEPResponse (RespBody ?resp) = Inl UnmarshalTypeError
           \<and> (\<exists>err. fst (lookupCEP ?e ''00000000'') = Inl err)
           \<and> fst (lookupCEP ?e ''00000000'') \<noteq> Inr None"
    using T[of ?e, THEN conjunct2, THEN conjunct1, rule_format,
        of ?resp "[(''erro'', JBool True)]" "''erro''" True]
    by (simp add: orchEnv_lookup orchEnv_simps ok_def sample_unmarshal)
  have \<open>fst (handleWeather textFloat ?e ?r) =
       \<lparr>w_status = Some 500, w_header = [(''Content-Type'', ''application/json'')],
        w_body = ''{"message":"internal error"}'' @ [CHR 0x0A]\<rparr>\<close>
    using T[of ?e, THEN conjunct2, THEN conjunct2, rule_format, of ?r \<open>\<lparr>CEP = ''00000000''\<rparr>\<close>] b
    by (simp add: post_def sample_decode sample_valid)
  with nf b show ?thesis by simp
qed

theorem invalid_zipcode_422_witness:
  \<open>fst (handleCEP (edgeEnv (ok [])) (post ''{"cep":'')) =
     \<lparr>w_status = Some 422, w_header = [(''Content-Type'', ''application/json'')],
      w_body = ''{"message":"invalid zipcode"}'' @ [CHR 0x0A]\<rparr>
   \<and> fst (handleCEP (edgeEnv (ok [])) (post ''{"cep":"123"}'')) =
     \<lparr>w_status = Some 422, w_header = [(''Content-Type'', ''application/json'')],
      w_body = ''{"message":"invalid zipcode"}'' @ [CHR 0x0A]\<rparr>
   \<and> fst (handleWeather textFloat (orchEnv ''key'' (ok []) (ok [])) (post ''{"cep":"123"}'')) =
     \<lparr>w_status = Some 422, w_header = [(''Content-Type'', ''application/json'')],
      w_body = ''{"message":"invalid zipcode"}'' @ [CHR 0x0A]\<rparr>
   \<and> w_status (fst (handleCEP
         (systemEnv textFloat (orchEnv ''key'' (ok ''{"erro": "true"}'') (ok [])))
         (post ''{"cep":"00000000"}''))) \<noteq> Some 422\<close>
proof -
  have r: \<open>rejected (post ''{"cep":'')\<close> \<open>rejected (post ''{"cep":"123"}'')\<close>
    \<open>\<not> rejected (post ''{"cep":"00000000"}'')\<close>
    by code_simp+
  have m: "Method (post b) = ''POST''" for b by (simp add: post_def)
  note T = invalid_zipcode_422[of _ "edgeEnv (ok [])" textFloat "orchEnv ''key'' (ok []) (ok [])"]
  let ?eB = \<open>orchEnv ''key'' (ok ''{"erro": "true"}'') (ok [])\<close>
  have up: "\<forall>q. (\<exists>err. Do (systemEnv textFloat ?eB) q = Inl err)
       \<or> Do (systemEnv textFloat ?eB) q = Inr (received (fst (handleWeather textFloat ?eB q)))"
    by (simp add: systemEnv_def)
  show ?thesis
    using T[of \<open>post ''{"cep":''\<close>, THEN conjunct1] T[of \<open>post ''{"cep":"123"}''\<close>, THEN conjunct1]
      invalid_zipcode_422[of \<open>post ''{"cep":"00000000"}''\<close> "systemEnv textFloat ?eB" textFloat ?eB,
        THEN conjunct2, THEN conjunct2, THEN conjunct2] up r m
    by simp
qed

end
